theory Spec2Isabelle
  imports Main
begin

section \<open>The authenticating proxy of index.js\<close>

text \<open>
  The program is one Express application (\<^verbatim>\<open>index.js\<close>): a liveness route, a forwarding
  route guarded by the middleware \<^verbatim>\<open>verifyAuth\<close>, and a catch-all.  It is embedded as pure
  functions over the request object Express hands to a route.  The two outbound calls
  (\<^verbatim>\<open>supabase.auth.getUser\<close> and \<^verbatim>\<open>axios\<close>) and the clock are parameters of the model, and
  every call the program makes to them is recorded in the order it is made, so that
  "the resolver is not contacted" is a statement about that record.

  The model covers the requests Express dispatches to these handlers.  The middleware
  installed with \<^verbatim>\<open>app.use\<close> (\<^verbatim>\<open>express.json()\<close>, \<^verbatim>\<open>cors()\<close>) runs first and answers some
  requests itself (a body that is not well-formed JSON, an \<^verbatim>\<open>OPTIONS\<close> request), and Express
  answers a request whose path it cannot percent-decode; such requests never reach the code
  of \<^verbatim>\<open>index.js\<close>.  \<^verbatim>\<open>req.body\<close> and \<^verbatim>\<open>req.query\<close> are taken as Express delivers them.
\<close>

subsection \<open>JavaScript strings\<close>

text \<open>\<^verbatim>\<open>s.startsWith(p)\<close>.\<close>

definition startsWith :: "string \<Rightarrow> string \<Rightarrow> bool" where
  "startsWith s p = (take (length p) s = p)"

text \<open>
  \<^verbatim>\<open>s.replace(pat, rep)\<close> with a string pattern: the first occurrence of \<open>pat\<close> is
  replaced, the rest of \<open>s\<close> is kept.  (The source only calls it with the replacement
  \<^verbatim>\<open>''\<close>, which has no \<^verbatim>\<open>$\<close> patterns.)
\<close>

fun replace :: "string \<Rightarrow> string \<Rightarrow> string \<Rightarrow> string" where
  "replace [] pat rep = (if pat = [] then rep else [])"
| "replace (c # cs) pat rep =
     (if startsWith (c # cs) pat then rep @ drop (length pat) (c # cs)
      else c # replace cs pat rep)"

text \<open>\<^verbatim>\<open>s.toLowerCase()\<close> on the ASCII letters that header names are made of.\<close>

definition lower_char :: "char \<Rightarrow> char" where
  "lower_char c =
     (case map_of (zip ''ABCDEFGHIJKLMNOPQRSTUVWXYZ'' ''abcdefghijklmnopqrstuvwxyz'') c of
        Some l \<Rightarrow> l
      | None \<Rightarrow> c)"

definition toLowerCase :: "string \<Rightarrow> string" where
  "toLowerCase s = map lower_char s"

text \<open>\<^verbatim>\<open>parts.join(sep)\<close>.\<close>

fun join :: "string \<Rightarrow> string list \<Rightarrow> string" where
  "join sep [] = []"
| "join sep [x] = x"
| "join sep (x # y # ys) = x @ sep @ join sep (y # ys)"

subsection \<open>JavaScript objects\<close>

text \<open>
  An object with string keys is the list of its own properties in the order
  \<^verbatim>\<open>Object.entries\<close> enumerates them; keys are compared exactly (case-sensitively), as
  JavaScript compares property names.  Assigning to a key that exists replaces the value in
  place, assigning to a new key appends it.  (JavaScript enumerates keys that are array
  indices before the others; where the order of properties matters below, it is between
  properties that spell one header name in different case, and those are never indices.)
\<close>

type_synonym 'v js_object = "(string \<times> 'v) list"

fun js_set :: "'v js_object \<Rightarrow> string \<Rightarrow> 'v \<Rightarrow> 'v js_object" where
  "js_set [] k v = [(k, v)]"
| "js_set ((k', v') # kvs) k v =
     (if k' = k then (k, v) # kvs else (k', v') # js_set kvs k v)"

text \<open>Object spread \<^verbatim>\<open>{ ...target, ...src }\<close>: the properties of \<open>src\<close> are assigned in order.\<close>

definition spread :: "'v js_object \<Rightarrow> 'v js_object \<Rightarrow> 'v js_object" where
  "spread target src = fold (\<lambda>(k, v) acc. js_set acc k v) src target"

text \<open>\<^verbatim>\<open>Object.fromEntries(entries)\<close>.\<close>

definition fromEntries :: "(string \<times> 'v) list \<Rightarrow> 'v js_object" where
  "fromEntries entries = spread [] entries"

text \<open>Property access \<^verbatim>\<open>obj[k]\<close>; \<open>None\<close> is \<^verbatim>\<open>undefined\<close>.\<close>

definition js_get :: "'v js_object \<Rightarrow> string \<Rightarrow> 'v option" where
  "js_get obj k = map_of obj k"

subsection \<open>HTTP header names\<close>

text \<open>
  On the wire a header name is case-insensitive: \<^verbatim>\<open>X-User-Id\<close> and \<^verbatim>\<open>x-user-id\<close> are the
  same header.  When a header object holds several properties that spell one header name,
  the HTTP client sets them one after the other and each replaces the one before (Node's
  \<^verbatim>\<open>setHeader\<close> keys its table by the lower-cased name), so the request carries the value of
  the last such property.
\<close>

definition header_values :: "string js_object \<Rightarrow> string \<Rightarrow> string list" where
  "header_values hs name =
     map snd (filter (\<lambda>(k, v). toLowerCase k = toLowerCase name) hs)"

definition http_header :: "string js_object \<Rightarrow> string \<Rightarrow> string option" where
  "http_header hs name =
     (case header_values hs name of [] \<Rightarrow> None | v # vs \<Rightarrow> Some (last (v # vs)))"

text \<open>
  \<^verbatim>\<open>req.headers\<close> as Node builds it: one property per header name, every name in lower
  case.
\<close>

definition node_headers :: "string js_object \<Rightarrow> bool" where
  "node_headers hs =
     (distinct (map fst hs) \<and> list_all (\<lambda>(k, v). toLowerCase k = k) hs)"

subsection \<open>JSON values\<close>

text \<open>
  The values \<^verbatim>\<open>res.json\<close> serialises and \<^verbatim>\<open>axios\<close> delivers as \<^verbatim>\<open>response.data\<close>.  A
  JavaScript string is \<open>JStr\<close>; numbers are the integers (floating point is outside the
  model); an object is the list of its properties in enumeration order.
\<close>

datatype json =
    JNull
  | JBool bool
  | JNum int
  | JStr string
  | JArr "json list"
  | JObj "(string \<times> json) list"

definition digit_char :: "nat \<Rightarrow> char" where
  "digit_char n = ''0123456789abcdef'' ! n"

text \<open>The decimal digits of a number that is not negative.\<close>

function show_digits :: "int \<Rightarrow> string" where
  "show_digits n =
     (if n < 10 then [digit_char (nat n)]
      else show_digits (n div 10) @ [digit_char (nat (n mod 10))])"
  by pat_completeness auto
termination
  by (relation "measure nat") auto

declare show_digits.simps [simp del]

definition show_int :: "int \<Rightarrow> string" where
  "show_int i = (if i < 0 then CHR ''-'' # show_digits (- i) else show_digits i)"

text \<open>
  The escapes of \<^verbatim>\<open>JSON.stringify\<close>: the double quote (0x22), the backslash (0x5C) and the
  control characters below 0x20.
\<close>

definition escape_char :: "char \<Rightarrow> string" where
  "escape_char c =
     (let n = (of_char c :: nat) in
      if n = 0x22 then [CHR 0x5C, CHR 0x22]
      else if n = 0x5C then [CHR 0x5C, CHR 0x5C]
      else if n = 8 then [CHR 0x5C, CHR ''b'']
      else if n = 9 then [CHR 0x5C, CHR ''t'']
      else if n = 10 then [CHR 0x5C, CHR ''n'']
      else if n = 12 then [CHR 0x5C, CHR ''f'']
      else if n = 13 then [CHR 0x5C, CHR ''r'']
      else if n < 32 then
        [CHR 0x5C, CHR ''u'', CHR ''0'', CHR ''0'', digit_char (n div 16), digit_char (n mod 16)]
      else [c])"

definition quote :: "string \<Rightarrow> string" where
  "quote s = CHR 0x22 # concat (map escape_char s) @ [CHR 0x22]"

text \<open>\<^verbatim>\<open>JSON.stringify(value)\<close> with no indentation argument: the compact form.\<close>

fun JSON_stringify :: "json \<Rightarrow> string" where
  "JSON_stringify JNull = ''null''"
| "JSON_stringify (JBool b) = (if b then ''true'' else ''false'')"
| "JSON_stringify (JNum i) = show_int i"
| "JSON_stringify (JStr s) = quote s"
| "JSON_stringify (JArr xs) = ''['' @ join '','' (map JSON_stringify xs) @ '']''"
| "JSON_stringify (JObj kvs) =
     ''{'' @ join '','' (map (\<lambda>kv. quote (fst kv) @ '':'' @ JSON_stringify (snd kv)) kvs) @ ''}''"

subsection \<open>Requests, configuration and the outside world\<close>

text \<open>
  The fields of \<^verbatim>\<open>req\<close> the program reads; \<open>http_method\<close> is \<^verbatim>\<open>req.method\<close>.
  \<^verbatim>\<open>req.query\<close> and \<^verbatim>\<open>req.body\<close> are only passed on, never inspected, so their types are
  left open.  \<^verbatim>\<open>req.url\<close> is the request target as received: the path and, when the
  request has one, \<^verbatim>\<open>?\<close> and the query string.
\<close>

record ('q, 'b) request =
  http_method :: string
  url :: string
  query :: 'q
  headers :: "string js_object"
  body :: 'b

text \<open>
  \<^verbatim>\<open>req.path\<close> for a request target in origin form without \<^verbatim>\<open>#\<close> or white space (see
  \<open>plain_target\<close> below): the target up to the query string.
\<close>

definition path :: "('q, 'b) request \<Rightarrow> string" where
  "path req = takeWhile (\<lambda>c. c \<noteq> CHR ''?'') (url req)"

text \<open>
  The module-level constants read from the environment at start-up.  \<open>INTERNAL_API_KEY\<close> is
  \<^verbatim>\<open>''\<close> when the variable is not set.
\<close>

record config =
  SUPABASE_URL :: string
  INTERNAL_API_URL :: string
  INTERNAL_API_KEY :: string

text \<open>The user record of the identity provider, as far as the program reads it.\<close>

record user =
  user_id :: string
  user_email :: string

text \<open>
  What \<^verbatim>\<open>await supabase.auth.getUser(token)\<close> does: it raises, or it returns
  \<^verbatim>\<open>{ data: { user }, error }\<close>, where \<open>None\<close> stands for \<^verbatim>\<open>null\<close> and an error is
  represented by its message.
\<close>

datatype get_user_result =
    GetUserThrows
  | GetUserReturns "user option" "string option"

text \<open>
  The options object the program passes to \<^verbatim>\<open>axios\<close>.  \<^verbatim>\<open>validateStatus: () => true\<close> is a
  constant function of the status code.
\<close>

record ('q, 'b) axios_config =
  ax_method :: string
  ax_url :: string
  ax_data :: 'b
  ax_params :: 'q
  ax_headers :: "string js_object"
  ax_validateStatus :: "nat \<Rightarrow> bool"
  ax_maxRedirects :: nat

text \<open>
  The response object of \<^verbatim>\<open>axios\<close>, and what \<^verbatim>\<open>await axios(...)\<close> does: it returns a
  response, or it raises an error whose \<^verbatim>\<open>code\<close> is a string or \<^verbatim>\<open>undefined\<close>.  Header
  values are strings (a header Node delivers as an array of values is outside the model).
\<close>

record axios_response =
  resp_status :: nat
  resp_headers :: "string js_object"
  resp_data :: json

datatype axios_result =
    Responds axios_response
  | Fails "string option"

text \<open>
  The world a request is served in: the configuration, the identity provider, the
  downstream service behind \<^verbatim>\<open>axios\<close>, and \<^verbatim>\<open>new Date().toISOString()\<close>.
\<close>

record ('q, 'b) env =
  config :: config
  getUser :: "string \<Rightarrow> get_user_result"
  axios :: "('q, 'b) axios_config \<Rightarrow> axios_result"
  now :: string

text \<open>An outbound call, recorded with its argument.\<close>

datatype ('q, 'b) call =
    CallGetUser string
  | CallAxios "('q, 'b) axios_config"

subsection \<open>Responses\<close>

text \<open>
  What the program does to \<^verbatim>\<open>res\<close>: the status it sets, the headers it sets with
  \<^verbatim>\<open>res.setHeader\<close>, and the value it hands to \<^verbatim>\<open>res.json\<close> or to \<^verbatim>\<open>res.send\<close>.  This is
  the handler's side; the response the client receives is \<open>express\<close> of it, defined below.
\<close>

datatype payload =
    Json json
  | Send json

record http_response =
  status :: nat
  out_headers :: "string js_object"
  payload :: payload

text \<open>
  The body text Express makes of a payload.  \<^verbatim>\<open>res.json(v)\<close> gives \<^verbatim>\<open>JSON.stringify(v)\<close>.
  \<^verbatim>\<open>res.send(v)\<close> takes a string as it is, the empty text for \<^verbatim>\<open>null\<close>, and passes a
  boolean, an array or an object to \<^verbatim>\<open>res.json\<close>.  A lone number has no body text of its own
  (\<open>None\<close>): Express 4 reads \<^verbatim>\<open>res.send(404)\<close> as a status code.  Whether the text is
  written, and under which status, is decided at the end of \<^verbatim>\<open>res.send\<close> (see \<open>express\<close>
  below).
\<close>

fun wire :: "payload \<Rightarrow> string option" where
  "wire (Json v) = Some (JSON_stringify v)"
| "wire (Send (JStr s)) = Some s"
| "wire (Send JNull) = Some []"
| "wire (Send (JNum i)) = None"
| "wire (Send (JBool b)) = Some (JSON_stringify (JBool b))"
| "wire (Send (JArr xs)) = Some (JSON_stringify (JArr xs))"
| "wire (Send (JObj kvs)) = Some (JSON_stringify (JObj kvs))"

text \<open>\<^verbatim>\<open>res.status(code).json(v)\<close> on a response no header has been set on.\<close>

definition json_reply :: "nat \<Rightarrow> json \<Rightarrow> http_response" where
  "json_reply code v = \<lparr>status = code, out_headers = [], payload = Json v\<rparr>"

text \<open>The result of serving one request: the response, and the outbound calls made.\<close>

record ('q, 'b) outcome =
  response :: http_response
  calls :: "('q, 'b) call list"

subsection \<open>The health check\<close>

text \<open>
  The handler of \<^verbatim>\<open>app.get('/health', ...)\<close>: it sets no status, so the response object
  still has its initial 200 when \<^verbatim>\<open>res.json\<close> is called.  What is written then is given by
  \<open>express\<close> below.
\<close>

definition health :: "('q, 'b) env \<Rightarrow> ('q, 'b) outcome" where
  "health e =
     \<lparr>response =
        json_reply 200
          (JObj [(''status'', JStr ''ok''),
                 (''timestamp'', JStr (now e)),
                 (''supabase'', JStr (SUPABASE_URL (config e))),
                 (''internalApi'', JStr (INTERNAL_API_URL (config e)))]),
      calls = []\<rparr>"

subsection \<open>The auth middleware\<close>

text \<open>
  \<^verbatim>\<open>verifyAuth(req, res, next)\<close>.  \<^verbatim>\<open>req.user = user; next()\<close> is the call of the continuation
  \<open>next\<close> with the user; the calls it makes follow the call to the identity provider.
  \<^verbatim>\<open>!authHeader\<close> holds for \<^verbatim>\<open>undefined\<close> and for the empty string.
\<close>

definition verifyAuth ::
  "('q, 'b) env \<Rightarrow> ('q, 'b) request \<Rightarrow> (user \<Rightarrow> ('q, 'b) outcome) \<Rightarrow> ('q, 'b) outcome" where
  "verifyAuth e req next =
     (let reject =
        \<lparr>response =
           json_reply 401
             (JObj [(''error'', JStr ''Unauthorized''),
                    (''message'',
                     JStr ''Missing or invalid Authorization header. Expected: Bearer <token>'')]),
         calls = []\<rparr>
      in
      case js_get (headers req) ''authorization'' of
        None \<Rightarrow> reject
      | Some authHeader \<Rightarrow>
          if authHeader = [] \<or> \<not> startsWith authHeader ''Bearer '' then reject
          else
            let token = replace authHeader ''Bearer '' [] in
            (case getUser e token of
               GetUserReturns u error \<Rightarrow>
                 if error \<noteq> None then
                   \<lparr>response =
                      json_reply 401
                        (JObj [(''error'', JStr ''Unauthorized''),
                               (''message'', JStr ''Invalid or expired token'')]),
                    calls = [CallGetUser token]\<rparr>
                 else
                   (case u of
                      None \<Rightarrow>
                        \<lparr>response =
                           json_reply 401
                             (JObj [(''error'', JStr ''Unauthorized''),
                                    (''message'', JStr ''User not found'')]),
                         calls = [CallGetUser token]\<rparr>
                    | Some usr \<Rightarrow>
                        (let out = next usr in out\<lparr>calls := CallGetUser token # calls out\<rparr>))
             | GetUserThrows \<Rightarrow>
                 \<lparr>response =
                    json_reply 500
                      (JObj [(''error'', JStr ''Authentication failed''),
                             (''message'', JStr ''Internal authentication error'')]),
                  calls = [CallGetUser token]\<rparr>))"

subsection \<open>The proxy handler\<close>

text \<open>\<^verbatim>\<open>req.url.replace(/^\/api\/?/, '')\<close>: a leading \<^verbatim>\<open>/api\<close> and one slash after it, if any.\<close>

definition strip_api :: "string \<Rightarrow> string" where
  "strip_api u =
     (if startsWith u ''/api/'' then drop 5 u
      else if startsWith u ''/api'' then drop 4 u
      else u)"

text \<open>
  The \<^verbatim>\<open>headers\<close> object literal of the \<^verbatim>\<open>axios\<close> call, property by property in the order
  of the source: the content type, the internal key when it is not the empty string, the two
  user headers, and last the spread of the request's own headers without
  \<^verbatim>\<open>authorization\<close>, \<^verbatim>\<open>host\<close> and \<^verbatim>\<open>content-length\<close>.
\<close>

definition forwarded :: "string js_object \<Rightarrow> string js_object" where
  "forwarded hs =
     fromEntries
       (filter (\<lambda>(key, v).
          \<not> List.member [''authorization'', ''host'', ''content-length''] (toLowerCase key)) hs)"

definition proxy_headers :: "config \<Rightarrow> user \<Rightarrow> string js_object \<Rightarrow> string js_object" where
  "proxy_headers cfg usr hs =
     spread
       (js_set
          (js_set
             (spread [(''Content-Type'', ''application/json'')]
                (if INTERNAL_API_KEY cfg = [] then []
                 else [(''X-Internal-Key'', INTERNAL_API_KEY cfg)]))
             ''X-User-Id'' (user_id usr))
          ''X-User-Email'' (user_email usr))
       (forwarded hs)"

definition axios_request ::
  "config \<Rightarrow> ('q, 'b) request \<Rightarrow> user \<Rightarrow> ('q, 'b) axios_config" where
  "axios_request cfg req usr =
     (let apiPath = strip_api (url req);
          internalUrl = INTERNAL_API_URL cfg @ ''/'' @ apiPath
      in
      \<lparr>ax_method = http_method req,
       ax_url = internalUrl,
       ax_data = body req,
       ax_params = query req,
       ax_headers = proxy_headers cfg usr (headers req),
       ax_validateStatus = (\<lambda>code. True),
       ax_maxRedirects = 0\<rparr>)"

text \<open>
  \<^verbatim>\<open>res.setHeader(key, value)\<close>: Node keeps the response headers in a table keyed by the
  lower-cased name, so setting a name again replaces its value.
\<close>

definition setHeader :: "string js_object \<Rightarrow> string \<Rightarrow> string \<Rightarrow> string js_object" where
  "setHeader hs name v = js_set hs (toLowerCase name) v"

text \<open>
  The relay of a downstream response, as the calls the handler makes on \<^verbatim>\<open>res\<close>: every
  header of \<^verbatim>\<open>response.headers\<close> is set, then
  \<^verbatim>\<open>res.status(response.status).send(response.data)\<close>.  The status is the argument of
  \<^verbatim>\<open>res.status\<close> and the payload the argument of \<^verbatim>\<open>res.send\<close>; what \<^verbatim>\<open>res.send\<close> makes
  of them (it may change the status, and it writes \<^verbatim>\<open>Content-Type\<close> and \<^verbatim>\<open>Content-Length\<close>
  itself) is given by \<open>express\<close> below.
\<close>

definition relay :: "axios_response \<Rightarrow> http_response" where
  "relay r =
     \<lparr>status = resp_status r,
      out_headers = fold (\<lambda>(key, v) hs. setHeader hs key v) (resp_headers r) [],
      payload = Send (resp_data r)\<rparr>"

text \<open>The \<^verbatim>\<open>catch\<close> block of the proxy handler, by \<^verbatim>\<open>error.code\<close>.\<close>

definition proxy_error :: "string option \<Rightarrow> http_response" where
  "proxy_error code =
     (if code = Some ''ECONNREFUSED'' then
        json_reply 503
          (JObj [(''error'', JStr ''Service Unavailable''),
                 (''message'', JStr ''Internal API is not reachable'')])
      else if code = Some ''ETIMEDOUT'' then
        json_reply 504
          (JObj [(''error'', JStr ''Gateway Timeout''),
                 (''message'', JStr ''Internal API request timed out'')])
      else
        json_reply 500
          (JObj [(''error'', JStr ''Internal Server Error''),
                 (''message'', JStr ''An error occurred while proxying the request'')]))"

text \<open>The handler of \<^verbatim>\<open>app.all('/api/*', verifyAuth, ...)\<close>, run with \<^verbatim>\<open>req.user\<close> set.\<close>

definition proxy :: "('q, 'b) env \<Rightarrow> ('q, 'b) request \<Rightarrow> user \<Rightarrow> ('q, 'b) outcome" where
  "proxy e req usr =
     (let request = axios_request (config e) req usr in
      \<lparr>response =
         (case axios e request of
            Responds r \<Rightarrow> relay r
          | Fails code \<Rightarrow> proxy_error code),
       calls = [CallAxios request]\<rparr>)"

subsection \<open>The catch-all and the route table\<close>

text \<open>
  The handler of \<^verbatim>\<open>app.all('*', ...)\<close>, as the calls it makes on \<^verbatim>\<open>res\<close>; the root document
  is handed to \<^verbatim>\<open>res.json\<close> with the initial status 200.
\<close>

definition catch_all :: "('q, 'b) request \<Rightarrow> ('q, 'b) outcome" where
  "catch_all req =
     (if path req \<noteq> ''/'' then
        \<lparr>response =
           json_reply 404
             (JObj [(''error'', JStr ''Not Found''),
                    (''message'', JStr ''Invalid endpoint. API routes should start with /api/'')]),
         calls = []\<rparr>
      else
        \<lparr>response =
           json_reply 200
             (JObj [(''name'', JStr ''Supabase Auth Proxy''),
                    (''version'', JStr ''1.0.0''),
                    (''endpoints'',
                     JObj [(''health'', JStr ''/health''), (''api'', JStr ''/api/*'')])]),
         calls = []\<rparr>)"

text \<open>
  Which paths the route patterns match.  Express matches without regard to case and, for a
  pattern with no wildcard, allows one trailing slash (the application enables neither
  \<^verbatim>\<open>case sensitive routing\<close> nor \<^verbatim>\<open>strict routing\<close>): \<^verbatim>\<open>/health\<close> is the expression
  \<^verbatim>\<open>/^\/health\/?$/i\<close>, and \<^verbatim>\<open>/api/*\<close> is \<^verbatim>\<open>/^\/api\/(.*)\/?$/i\<close>.
\<close>

definition health_path :: "string \<Rightarrow> bool" where
  "health_path p = (toLowerCase p = ''/health'' \<or> toLowerCase p = ''/health/'')"

definition api_path :: "string \<Rightarrow> bool" where
  "api_path p = startsWith (toLowerCase p) ''/api/''"

text \<open>
  The route table, in the order of registration: the first route whose method and path match
  answers.  \<^verbatim>\<open>app.get\<close> serves \<^verbatim>\<open>GET\<close> and, as Express has no separate handler for it here,
  \<^verbatim>\<open>HEAD\<close>; \<^verbatim>\<open>app.all\<close> serves every method.
\<close>

definition app :: "('q, 'b) env \<Rightarrow> ('q, 'b) request \<Rightarrow> ('q, 'b) outcome" where
  "app e req =
     (if (http_method req = ''GET'' \<or> http_method req = ''HEAD'') \<and> health_path (path req) then health e
      else if api_path (path req) then verifyAuth e req (proxy e req)
      else catch_all req)"

subsection \<open>What axios does with the response body and with the parameters\<close>

text \<open>
  \<^verbatim>\<open>JSON.parse\<close>, as a lexer and a one-pass parser with a stack of open containers.  The
  fragment covered: objects, arrays, \<^verbatim>\<open>true\<close>, \<^verbatim>\<open>false\<close>, \<^verbatim>\<open>null\<close>, integers up to
  \<^verbatim>\<open>2^53\<close>, and strings of ASCII characters without escape sequences, with white space
  between tokens.  A text with an escape sequence, a character beyond ASCII, a fraction, an
  exponent, a larger number or an object key made of digits only (JavaScript enumerates
  such keys first, wherever they stand in the text) is outside the fragment and answered
  \<open>None\<close> like a text that is not JSON; no theorem below is about such a text.
\<close>

datatype token =
    TLBrace | TRBrace | TLBracket | TRBracket | TColon | TComma
  | TString string | TNumber int | TTrue | TFalse | TNull

definition is_ws :: "char \<Rightarrow> bool" where
  "is_ws c = List.member [CHR '' '', CHR 0x09, CHR 0x0A, CHR 0x0D] c"

definition is_digit :: "char \<Rightarrow> bool" where
  "is_digit c = List.member ''0123456789'' c"

definition read_digits :: "string \<Rightarrow> int" where
  "read_digits ds = foldl (\<lambda>n d. 10 * n + (of_char d - 48)) 0 ds"

definition plain_char :: "char \<Rightarrow> bool" where
  "plain_char c = (c \<noteq> CHR 0x5C \<and> 32 \<le> (of_char c :: nat) \<and> (of_char c :: nat) < 128)"

definition number_token :: "bool \<Rightarrow> string \<Rightarrow> string \<Rightarrow> token option" where
  "number_token negative ds rest =
     (if ds = [] \<or> (1 < length ds \<and> hd ds = CHR ''0'') then None
      else if rest \<noteq> [] \<and> List.member ''.eE'' (hd rest) then None
      else if 9007199254740992 < read_digits ds then None
      else Some (TNumber (if negative then - read_digits ds else read_digits ds)))"

definition cons_token :: "token option \<Rightarrow> token list option \<Rightarrow> token list option" where
  "cons_token t ts =
     (case t of None \<Rightarrow> None | Some x \<Rightarrow> (case ts of None \<Rightarrow> None | Some xs \<Rightarrow> Some (x # xs)))"

function lex :: "string \<Rightarrow> token list option" where
  "lex [] = Some []"
| "lex (c # cs) =
     (if is_ws c then lex cs
      else if c = CHR ''{'' then cons_token (Some TLBrace) (lex cs)
      else if c = CHR ''}'' then cons_token (Some TRBrace) (lex cs)
      else if c = CHR ''['' then cons_token (Some TLBracket) (lex cs)
      else if c = CHR '']'' then cons_token (Some TRBracket) (lex cs)
      else if c = CHR '':'' then cons_token (Some TColon) (lex cs)
      else if c = CHR '','' then cons_token (Some TComma) (lex cs)
      else if c = CHR 0x22 then
        (let s = takeWhile (\<lambda>d. d \<noteq> CHR 0x22) cs;
             rest = dropWhile (\<lambda>d. d \<noteq> CHR 0x22) cs
         in if rest = [] \<or> \<not> list_all plain_char s then None
            else cons_token (Some (TString s)) (lex (tl rest)))
      else if c = CHR ''-'' then
        cons_token (number_token True (takeWhile is_digit cs) (dropWhile is_digit cs))
          (lex (dropWhile is_digit cs))
      else if is_digit c then
        cons_token (number_token False (c # takeWhile is_digit cs) (dropWhile is_digit cs))
          (lex (dropWhile is_digit cs))
      else if startsWith (c # cs) ''true'' then cons_token (Some TTrue) (lex (drop 3 cs))
      else if startsWith (c # cs) ''false'' then cons_token (Some TFalse) (lex (drop 4 cs))
      else if startsWith (c # cs) ''null'' then cons_token (Some TNull) (lex (drop 3 cs))
      else None)"
  by pat_completeness auto
termination
proof (relation "measure length")
  show "wf (measure length)" by simp
next
  fix c :: char and cs x xa
  assume "xa = dropWhile (\<lambda>d. d \<noteq> CHR 0x22) cs"
  then have "length (tl xa) \<le> length cs"
    using length_dropWhile_le [of "\<lambda>d. d \<noteq> CHR 0x22" cs] by simp
  then show "(tl xa, c # cs) \<in> measure length" by simp
qed (auto simp: le_imp_less_Suc length_dropWhile_le)

declare lex.simps [simp del]

text \<open>
  The parser reads one token at a time.  The stack holds the open containers: an array with
  its elements so far, an object with its members so far, and above an object the key whose
  value is being read.
\<close>

datatype frame =
    FArr "json list"
  | FObj "(string \<times> json) list"
  | FKey string

datatype mode =
    WantValue | WantValueOrClose | WantKeyOrClose | WantKey | WantColon
  | AfterElem | AfterMember | Done json

text \<open>A value is complete: it is the result, the next element, or the value of a key.\<close>

definition complete :: "json \<Rightarrow> frame list \<Rightarrow> (mode \<times> frame list) option" where
  "complete v st =
     (case st of
        [] \<Rightarrow> Some (Done v, [])
      | FArr acc # st' \<Rightarrow> Some (AfterElem, FArr (acc @ [v]) # st')
      | FKey k # FObj acc # st' \<Rightarrow> Some (AfterMember, FObj (js_set acc k v) # st')
      | _ \<Rightarrow> None)"

definition start_value :: "frame list \<Rightarrow> token \<Rightarrow> (mode \<times> frame list) option" where
  "start_value st t =
     (case t of
        TLBracket \<Rightarrow> Some (WantValueOrClose, FArr [] # st)
      | TLBrace \<Rightarrow> Some (WantKeyOrClose, FObj [] # st)
      | TString s \<Rightarrow> complete (JStr s) st
      | TNumber i \<Rightarrow> complete (JNum i) st
      | TTrue \<Rightarrow> complete (JBool True) st
      | TFalse \<Rightarrow> complete (JBool False) st
      | TNull \<Rightarrow> complete JNull st
      | _ \<Rightarrow> None)"

definition close_array :: "frame list \<Rightarrow> (mode \<times> frame list) option" where
  "close_array st = (case st of FArr acc # st' \<Rightarrow> complete (JArr acc) st' | _ \<Rightarrow> None)"

definition close_object :: "frame list \<Rightarrow> (mode \<times> frame list) option" where
  "close_object st = (case st of FObj acc # st' \<Rightarrow> complete (JObj acc) st' | _ \<Rightarrow> None)"

definition start_key :: "frame list \<Rightarrow> string \<Rightarrow> (mode \<times> frame list) option" where
  "start_key st k = (if k \<noteq> [] \<and> list_all is_digit k then None else Some (WantColon, FKey k # st))"

definition step :: "mode \<times> frame list \<Rightarrow> token \<Rightarrow> (mode \<times> frame list) option" where
  "step s t =
     (case s of (m, st) \<Rightarrow>
        (case m of
           WantValue \<Rightarrow> start_value st t
         | WantValueOrClose \<Rightarrow> (if t = TRBracket then close_array st else start_value st t)
         | WantKeyOrClose \<Rightarrow>
             (case t of
                TString k \<Rightarrow> start_key st k
              | TRBrace \<Rightarrow> close_object st
              | _ \<Rightarrow> None)
         | WantKey \<Rightarrow> (case t of TString k \<Rightarrow> start_key st k | _ \<Rightarrow> None)
         | WantColon \<Rightarrow> (if t = TColon then Some (WantValue, st) else None)
         | AfterElem \<Rightarrow>
             (if t = TComma then Some (WantValue, st)
              else if t = TRBracket then close_array st
              else None)
         | AfterMember \<Rightarrow>
             (if t = TComma then Some (WantKey, st)
              else if t = TRBrace then close_object st
              else None)
         | Done v \<Rightarrow> None))"

fun run :: "mode \<times> frame list \<Rightarrow> token list \<Rightarrow> (mode \<times> frame list) option" where
  "run s [] = Some s"
| "run s (t # ts) = (case step s t of None \<Rightarrow> None | Some s' \<Rightarrow> run s' ts)"

definition JSON_parse :: "string \<Rightarrow> json option" where
  "JSON_parse text =
     (case lex text of
        None \<Rightarrow> None
      | Some ts \<Rightarrow>
          (case run (WantValue, []) ts of
             Some (Done v, []) \<Rightarrow> Some v
           | _ \<Rightarrow> None))"

text \<open>
  The default \<^verbatim>\<open>transformResponse\<close> of axios (no \<^verbatim>\<open>responseType\<close> is configured): a
  non-empty body is given to \<^verbatim>\<open>JSON.parse\<close>; if that succeeds \<^verbatim>\<open>response.data\<close> is the parsed
  value, otherwise the body as a string.  The answer is \<open>None\<close> where the model cannot
  tell: a text the parser above does not read is taken for a string only if it is ASCII and
  does not begin as a JSON text begins (with \<^verbatim>\<open>{\<close>, \<^verbatim>\<open>[\<close>, a double quote, \<^verbatim>\<open>-\<close>, a digit
  or the first letter of \<^verbatim>\<open>true\<close>, \<^verbatim>\<open>false\<close>, \<^verbatim>\<open>null\<close>).
\<close>

definition may_start_json :: "string \<Rightarrow> bool" where
  "may_start_json text =
     (case dropWhile is_ws text of
        [] \<Rightarrow> False
      | c # cs \<Rightarrow> c = CHR 0x22 \<or> List.member ''{[-0123456789tfn'' c)"

definition transformResponse :: "string \<Rightarrow> json option" where
  "transformResponse text =
     (if text = [] then Some (JStr [])
      else
        case JSON_parse text of
          Some v \<Rightarrow> Some v
        | None \<Rightarrow>
            if list_all (\<lambda>c. (of_char c :: nat) < 128) text \<and> \<not> may_start_json text
            then Some (JStr text)
            else None)"

text \<open>
  The URL axios requests (\<^verbatim>\<open>buildURL\<close>): \<^verbatim>\<open>params\<close> is serialised as \<^verbatim>\<open>key=value\<close> pairs joined
  by \<^verbatim>\<open>&\<close> and appended to \<^verbatim>\<open>url\<close>, after \<^verbatim>\<open>?\<close> if \<^verbatim>\<open>url\<close> has none yet and after \<^verbatim>\<open>&\<close> if it has.
  Keys and values made of letters, digits, \<^verbatim>\<open>-\<close>, \<^verbatim>\<open>_\<close> and \<^verbatim>\<open>.\<close> are written as they are;
  parameters that need percent-encoding are outside the model (\<open>None\<close>).
\<close>

definition unreserved :: "char \<Rightarrow> bool" where
  "unreserved c =
     List.member ''abcdefghijklmnopqrstuvwxyzABCDEFGHIJKLMNOPQRSTUVWXYZ0123456789-_.'' c"

definition buildURL :: "string \<Rightarrow> (string \<times> string) list \<Rightarrow> string option" where
  "buildURL u params =
     (if \<not> list_all (\<lambda>(k, v). list_all unreserved k \<and> list_all unreserved v) params then None
      else
        let serialized = join ''&'' (map (\<lambda>(k, v). k @ ''='' @ v) params);
            base = takeWhile (\<lambda>c. c \<noteq> CHR ''#'') u
        in if serialized = [] then Some u
           else Some (base @ (if List.member base (CHR ''?'') then ''&'' else ''?'') @ serialized))"

subsection \<open>What Express writes\<close>

text \<open>
  The handlers end with \<^verbatim>\<open>res.json\<close> or \<^verbatim>\<open>res.send\<close>; what the client receives is decided
  there (Express 4, \<^verbatim>\<open>res.send\<close>).  The model gives the status line and the body.  It is
  partial: \<open>None\<close> stands for a case it does not decide.
\<close>

record wire_response =
  w_status :: nat
  w_body :: string

text \<open>A header that is present with a non-empty value.\<close>

definition truthy :: "string js_object \<Rightarrow> string \<Rightarrow> bool" where
  "truthy hs name = (case js_get hs name of None \<Rightarrow> False | Some v \<Rightarrow> v \<noteq> [])"

text \<open>
  The freshness test on the request headers and the headers set on the response.  A request
  with neither \<^verbatim>\<open>If-None-Match\<close> nor \<^verbatim>\<open>If-Modified-Since\<close> is not fresh; nor is one with only
  \<^verbatim>\<open>If-Modified-Since\<close> when the response has no \<^verbatim>\<open>Last-Modified\<close>; one with only
  \<^verbatim>\<open>If-None-Match: *\<close> and no \<^verbatim>\<open>Cache-Control\<close> is fresh.  Every other case depends on the
  entity tag Express computes, on dates or on the cache directives, and is left undecided.
\<close>

definition fresh_check :: "string js_object \<Rightarrow> string js_object \<Rightarrow> bool option" where
  "fresh_check req_hs res_hs =
     (if \<not> truthy req_hs ''if-none-match'' then
        (if \<not> truthy req_hs ''if-modified-since'' then Some False
         else if \<not> truthy res_hs ''last-modified'' then Some False
         else None)
      else if js_get req_hs ''if-none-match'' = Some ''*''
              \<and> \<not> truthy req_hs ''if-modified-since'' \<and> \<not> truthy req_hs ''cache-control''
      then Some True
      else None)"

text \<open>\<^verbatim>\<open>req.fresh\<close>: only for \<^verbatim>\<open>GET\<close> and \<^verbatim>\<open>HEAD\<close>, and only for a status 2xx or 304.\<close>

definition req_fresh :: "('q, 'b) request \<Rightarrow> nat \<Rightarrow> string js_object \<Rightarrow> bool option" where
  "req_fresh req code res_hs =
     (if http_method req \<noteq> ''GET'' \<and> http_method req \<noteq> ''HEAD'' then Some False
      else if (200 \<le> code \<and> code < 300) \<or> code = 304 then fresh_check (headers req) res_hs
      else Some False)"

text \<open>
  The end of \<^verbatim>\<open>res.send\<close>, with the status code and the chunk to write (\<open>None\<close> is
  \<^verbatim>\<open>undefined\<close>): a fresh request is answered 304; no body is written for 1xx, 204 and 304
  and for a \<^verbatim>\<open>HEAD\<close> request.  The status 205 and a status Node refuses are left undecided.
\<close>

definition finish ::
  "('q, 'b) request \<Rightarrow> nat \<Rightarrow> string js_object \<Rightarrow> string option \<Rightarrow> wire_response option" where
  "finish req code res_hs chunk =
     (if code < 100 \<or> 999 < code \<or> code = 205 then None
      else
        case req_fresh req code res_hs of
          None \<Rightarrow> None
        | Some is_fresh \<Rightarrow>
            let final = (if is_fresh then 304 else code) in
            Some \<lparr>w_status = final,
                  w_body =
                    (if final < 200 \<or> final = 204 \<or> final = 304 \<or> http_method req = ''HEAD''
                     then []
                     else case chunk of None \<Rightarrow> [] | Some text \<Rightarrow> text)\<rparr>)"

text \<open>
  A media type \<^verbatim>\<open>type/subtype\<close> of letters, digits, \<^verbatim>\<open>-\<close>, \<^verbatim>\<open>+\<close> and \<^verbatim>\<open>.\<close>, with no
  parameters: a \<^verbatim>\<open>Content-Type\<close> that \<^verbatim>\<open>res.send\<close> can add its charset to.
\<close>

definition token_char :: "char \<Rightarrow> bool" where
  "token_char c =
     List.member ''abcdefghijklmnopqrstuvwxyzABCDEFGHIJKLMNOPQRSTUVWXYZ0123456789-+.'' c"

definition simple_media_type :: "string \<Rightarrow> bool" where
  "simple_media_type v =
     (let t = takeWhile (\<lambda>c. c \<noteq> CHR ''/'') v;
          sub = drop 1 (dropWhile (\<lambda>c. c \<noteq> CHR ''/'') v)
      in t \<noteq> [] \<and> sub \<noteq> [] \<and> list_all token_char t \<and> list_all token_char sub)"

text \<open>
  \<^verbatim>\<open>res.json(v)\<close> and \<^verbatim>\<open>res.send(v)\<close> on a response with the status and headers the handler
  has set.  A lone number given to \<^verbatim>\<open>res.send\<close> is taken for the status code, and the body
  is its message in the table \<^verbatim>\<open>statuses.message\<close> (the parameter \<open>statuses\<close>).  Every other
  value is written as \<open>wire\<close> says.  Left undecided: a response on which a \<^verbatim>\<open>Trailer\<close> header
  or a \<^verbatim>\<open>Content-Type\<close> other than a simple media type has been set.
\<close>

definition express ::
  "(int \<Rightarrow> string option) \<Rightarrow> ('q, 'b) request \<Rightarrow> http_response \<Rightarrow> wire_response option" where
  "express statuses req r =
     (if js_get (out_headers r) ''trailer'' \<noteq> None then None
      else if (case js_get (out_headers r) ''content-type'' of
                 None \<Rightarrow> False
               | Some v \<Rightarrow> \<not> simple_media_type v) then None
      else
        case payload r of
          Send (JNum n) \<Rightarrow>
            if 100 \<le> n \<and> n \<le> 999 then finish req (nat n) (out_headers r) (statuses n)
            else None
        | p \<Rightarrow> finish req (status r) (out_headers r) (wire p))"



subsection \<open>A sample world\<close>

text \<open>
  One configuration, an identity provider that knows one token, and a downstream service
  with three resources, for evaluating the program on concrete requests.  The downstream
  service answers \<^verbatim>\<open>/users\<close> with the body \<^verbatim>\<open>{"name": "alice"}\<close>, \<^verbatim>\<open>/teapot\<close> with the body
  \<^verbatim>\<open>short and stout\<close> and \<^verbatim>\<open>/count\<close> with the body \<^verbatim>\<open>404\<close>; \<open>sample_axios\<close> gives the
  response objects axios makes of them.
\<close>

definition sample_config :: config where
  "sample_config =
     \<lparr>SUPABASE_URL = ''http://supabase:8000'',
      INTERNAL_API_URL = ''http://internal:8080'',
      INTERNAL_API_KEY = ''secret''\<rparr>"

definition alice :: user where
  "alice = \<lparr>user_id = ''u1'', user_email = ''a@b.com''\<rparr>"

definition sample_getUser :: "string \<Rightarrow> get_user_result" where
  "sample_getUser token =
     (if token = ''good-token'' then GetUserReturns (Some alice) None
      else if token = ''expired'' then GetUserReturns None (Some ''token is expired'')
      else if token = ''ghost'' then GetUserReturns None None
      else GetUserThrows)"

definition sample_axios :: "((string \<times> string) list, json) axios_config \<Rightarrow> axios_result" where
  "sample_axios c =
     (if startsWith (ax_url c) ''http://internal:8080/users'' then
        Responds
          \<lparr>resp_status = 200, resp_headers = [(''content-type'', ''application/json'')],
           resp_data = JObj [(''name'', JStr ''alice'')]\<rparr>
      else if ax_url c = ''http://internal:8080/teapot'' then
        Responds
          \<lparr>resp_status = 418, resp_headers = [(''content-type'', ''text/plain'')],
           resp_data = JStr ''short and stout''\<rparr>
      else if ax_url c = ''http://internal:8080/count'' then
        Responds
          \<lparr>resp_status = 200, resp_headers = [(''content-type'', ''application/json'')],
           resp_data = JNum 404\<rparr>
      else if ax_url c = ''http://internal:8080/slow'' then Fails (Some ''ETIMEDOUT'')
      else if ax_url c = ''http://internal:8080/reset'' then Fails (Some ''ECONNRESET'')
      else Fails (Some ''ECONNREFUSED''))"

definition sample_env :: "((string \<times> string) list, json) env" where
  "sample_env =
     \<lparr>config = sample_config, getUser = sample_getUser, axios = sample_axios,
      now = ''2025-11-04T10:00:00.000Z''\<rparr>"

definition sample_statuses :: "int \<Rightarrow> string option" where
  "sample_statuses n =
     (if n = 200 then Some ''OK'' else if n = 404 then Some ''Not Found'' else None)"

definition sample_request ::
  "string \<Rightarrow> string \<Rightarrow> (string \<times> string) list \<Rightarrow> string js_object \<Rightarrow>
   ((string \<times> string) list, json) request" where
  "sample_request m u q hs = \<lparr>http_method = m, url = u, query = q, headers = hs, body = JObj []\<rparr>"

section \<open>Properties\<close>

lemmas route_defs =
  path_def api_path_def health_path_def startsWith_def toLowerCase_def lower_char_def

subsection \<open>Routing and the middleware\<close>

lemma api_not_health: "api_path p \<Longrightarrow> \<not> health_path p"
  by (auto simp: api_path_def health_path_def startsWith_def)

lemma app_api: "api_path (path req) \<Longrightarrow> app e req = verifyAuth e req (proxy e req)"
  by (simp add: app_def api_not_health)

lemma replace_Bearer: "replace (''Bearer '' @ t) ''Bearer '' [] = t"
  by (simp add: startsWith_def)

lemma startsWith_Bearer: "startsWith (''Bearer '' @ t) ''Bearer ''"
  by (simp add: startsWith_def)

lemma verifyAuth_reject:
  assumes "\<forall>h. js_get (headers req) ''authorization'' = Some h \<longrightarrow> \<not> startsWith h ''Bearer ''"
  shows "verifyAuth e req next =
    \<lparr>response =
       json_reply 401
         (JObj [(''error'', JStr ''Unauthorized''),
                (''message'',
                 JStr ''Missing or invalid Authorization header. Expected: Bearer <token>'')]),
     calls = []\<rparr>"
  using assms by (cases "js_get (headers req) ''authorization''") (simp_all add: verifyAuth_def)

lemma verifyAuth_bearer:
  assumes "js_get (headers req) ''authorization'' = Some (''Bearer '' @ t)"
  shows "verifyAuth e req next =
    (case getUser e t of
       GetUserReturns u error \<Rightarrow>
         if error \<noteq> None then
           \<lparr>response =
              json_reply 401
                (JObj [(''error'', JStr ''Unauthorized''),
                       (''message'', JStr ''Invalid or expired token'')]),
            calls = [CallGetUser t]\<rparr>
         else
           (case u of
              None \<Rightarrow>
                \<lparr>response =
                   json_reply 401
                     (JObj [(''error'', JStr ''Unauthorized''),
                            (''message'', JStr ''User not found'')]),
                 calls = [CallGetUser t]\<rparr>
            | Some usr \<Rightarrow>
                \<lparr>response = response (next usr), calls = CallGetUser t # calls (next usr)\<rparr>)
     | GetUserThrows \<Rightarrow>
         \<lparr>response =
            json_reply 500
              (JObj [(''error'', JStr ''Authentication failed''),
                     (''message'', JStr ''Internal authentication error'')]),
          calls = [CallGetUser t]\<rparr>)"
proof -
  have "startsWith (''Bearer '' @ t) ''Bearer ''" by (rule startsWith_Bearer)
  moreover have "replace (''Bearer '' @ t) ''Bearer '' [] = t" by (rule replace_Bearer)
  moreover have "''Bearer '' @ t \<noteq> []" by simp
  ultimately show ?thesis
    using assms
    by (simp add: verifyAuth_def Let_def del: replace.simps append.simps
        split: get_user_result.splits option.splits)
qed



lemma app_bearer:
  assumes "api_path (path req)"
    and "js_get (headers req) ''authorization'' = Some (''Bearer '' @ t)"
  shows "app e req =
    (case getUser e t of
       GetUserReturns u error \<Rightarrow>
         if error \<noteq> None then
           \<lparr>response =
              json_reply 401
                (JObj [(''error'', JStr ''Unauthorized''),
                       (''message'', JStr ''Invalid or expired token'')]),
            calls = [CallGetUser t]\<rparr>
         else
           (case u of
              None \<Rightarrow>
                \<lparr>response =
                   json_reply 401
                     (JObj [(''error'', JStr ''Unauthorized''),
                            (''message'', JStr ''User not found'')]),
                 calls = [CallGetUser t]\<rparr>
            | Some usr \<Rightarrow>
                \<lparr>response = response (proxy e req usr),
                 calls = CallGetUser t # calls (proxy e req usr)\<rparr>)
     | GetUserThrows \<Rightarrow>
         \<lparr>response =
            json_reply 500
              (JObj [(''error'', JStr ''Authentication failed''),
                     (''message'', JStr ''Internal authentication error'')]),
          calls = [CallGetUser t]\<rparr>)"
  using app_api [OF assms(1)] verifyAuth_bearer [OF assms(2)] by simp

lemma proxy_calls: "calls (proxy e req usr) = [CallAxios (axios_request (config e) req usr)]"
  by (simp add: proxy_def Let_def)

lemma app_authenticated:
  assumes "api_path (path req)"
    and "js_get (headers req) ''authorization'' = Some (''Bearer '' @ t)"
    and "getUser e t = GetUserReturns (Some usr) None"
  shows "app e req =
    \<lparr>response =
       (case axios e (axios_request (config e) req usr) of
          Responds r \<Rightarrow> relay r
        | Fails code \<Rightarrow> proxy_error code),
     calls = [CallGetUser t, CallAxios (axios_request (config e) req usr)]\<rparr>"
  using app_bearer [OF assms(1,2)] assms(3) by (simp add: proxy_def Let_def)

text \<open>
  C8.  On the forwarding route, when the \<^verbatim>\<open>authorization\<close> value is \<^verbatim>\<open>Bearer \<close> followed by
  \<open>t\<close>, the identity provider is called exactly once and with exactly \<open>t\<close>, whatever \<open>t\<close>
  is, the empty string included (the only other call that can follow is the one to the
  downstream service).  A value that does not start with \<^verbatim>\<open>Bearer \<close> (the prefix in another
  case, or without its space) is answered 401 and no call is made.
\<close>

theorem C8_bearer_token:
  assumes "api_path (path req)"
  shows "(\<forall>t. js_get (headers req) ''authorization'' = Some (''Bearer '' @ t) \<longrightarrow>
            (calls (app e req) = [CallGetUser t] \<or>
             (\<exists>c. calls (app e req) = [CallGetUser t, CallAxios c])))
       \<and> (\<forall>h. js_get (headers req) ''authorization'' = Some h \<and> \<not> startsWith h ''Bearer '' \<longrightarrow>
            status (response (app e req)) = 401 \<and> calls (app e req) = [])"
proof (intro conjI allI impI)
  fix t
  assume "js_get (headers req) ''authorization'' = Some (''Bearer '' @ t)"
  from app_bearer [OF assms this, of e]
  show "calls (app e req) = [CallGetUser t] \<or>
        (\<exists>c. calls (app e req) = [CallGetUser t, CallAxios c])"
    by (simp add: proxy_calls split: get_user_result.splits option.splits if_splits)
next
  fix h
  assume h: "js_get (headers req) ''authorization'' = Some h \<and> \<not> startsWith h ''Bearer ''"
  then have "\<forall>h. js_get (headers req) ''authorization'' = Some h \<longrightarrow> \<not> startsWith h ''Bearer ''"
    by simp
  from verifyAuth_reject [OF this] app_api [OF assms]
  have eq: "app e req =
      \<lparr>response =
         json_reply 401
           (JObj [(''error'', JStr ''Unauthorized''),
                  (''message'',
                   JStr ''Missing or invalid Authorization header. Expected: Bearer <token>'')]),
       calls = []\<rparr>"
    by simp
  show "status (response (app e req)) = 401" unfolding eq by (simp add: json_reply_def)
  show "calls (app e req) = []" unfolding eq by simp
qed

text \<open>
  The empty token and a token after two spaces are handed to the identity provider as they
  are; \<^verbatim>\<open>bearer good-token\<close> and \<^verbatim>\<open>Bearergood-token\<close> are rejected without a call.
\<close>

theorem C8_bearer_token_witness:
  "calls (app sample_env
      (sample_request ''GET'' ''/api/users'' [] [(''authorization'', ''Bearer '')])) =
     [CallGetUser []]
   \<and> calls (app sample_env
      (sample_request ''GET'' ''/api/users'' [] [(''authorization'', ''Bearer  good-token'')])) =
     [CallGetUser '' good-token'']
   \<and> status (response (app sample_env
      (sample_request ''GET'' ''/api/users'' [] [(''authorization'', ''bearer good-token'')]))) = 401
   \<and> calls (app sample_env
      (sample_request ''GET'' ''/api/users'' [] [(''authorization'', ''bearer good-token'')])) = []
   \<and> calls (app sample_env
      (sample_request ''GET'' ''/api/users'' [] [(''authorization'', ''Bearergood-token'')])) = []"
proof -
  let ?r = "\<lambda>h. sample_request ''GET'' ''/api/users'' [] [(''authorization'', h)]"
  have api: "\<And>h. api_path (path (?r h))"
    by (simp add: sample_request_def route_defs)
  have hdr: "\<And>h. js_get (headers (?r h)) ''authorization'' = Some h"
    by (simp add: sample_request_def js_get_def)
  have 1: "calls (app sample_env (?r ''Bearer '')) = [CallGetUser []]"
    using C8_bearer_token [OF api, of "''Bearer ''" sample_env] hdr [of "''Bearer ''"]
    by (simp add: sample_request_def sample_env_def sample_getUser_def js_get_def
        app_def verifyAuth_def route_defs)
  have 2: "calls (app sample_env (?r ''Bearer  good-token'')) = [CallGetUser '' good-token'']"
    using C8_bearer_token [OF api, of "''Bearer  good-token''" sample_env]
    by (simp add: sample_request_def sample_env_def sample_getUser_def js_get_def
        app_def verifyAuth_def route_defs)
  have 3: "status (response (app sample_env (?r ''bearer good-token''))) = 401
      \<and> calls (app sample_env (?r ''bearer good-token'')) = []"
    using C8_bearer_token [OF api, of "''bearer good-token''" sample_env]
    by (simp add: sample_request_def js_get_def startsWith_def)
  have 4: "calls (app sample_env (?r ''Bearergood-token'')) = []"
    using C8_bearer_token [OF api, of "''Bearergood-token''" sample_env]
    by (simp add: sample_request_def js_get_def startsWith_def)
  from 1 2 3 4 show ?thesis by simp
qed

text \<open>
  C4.  On the forwarding route, with the \<^verbatim>\<open>authorization\<close> value \<^verbatim>\<open>Bearer \<close> followed by \<open>t\<close>:
  if the identity provider returns an error the answer is 401 "Invalid or expired token";
  if it returns neither an error nor a user, 401 "User not found"; if the call raises, 500
  with the body \<^verbatim>\<open>{"error":"Authentication failed","message":"Internal authentication error"}\<close>;
  in these three cases the call to the identity provider is the only outbound call.  If it
  returns a user and no error, the proxy handler runs with that user: the response is the
  handler's, and the one further call is the downstream request built for that user.
\<close>

theorem C4_resolver_outcomes:
  assumes "api_path (path req)"
    and "js_get (headers req) ''authorization'' = Some (''Bearer '' @ t)"
  shows "(\<forall>u err. getUser e t = GetUserReturns u (Some err) \<longrightarrow>
            app e req =
              \<lparr>response =
                 \<lparr>status = 401, out_headers = [],
                  payload = Json (JObj [(''error'', JStr ''Unauthorized''),
                                        (''message'', JStr ''Invalid or expired token'')])\<rparr>,
               calls = [CallGetUser t]\<rparr>)
       \<and> (getUser e t = GetUserReturns None None \<longrightarrow>
            app e req =
              \<lparr>response =
                 \<lparr>status = 401, out_headers = [],
                  payload = Json (JObj [(''error'', JStr ''Unauthorized''),
                                        (''message'', JStr ''User not found'')])\<rparr>,
               calls = [CallGetUser t]\<rparr>)
       \<and> (getUser e t = GetUserThrows \<longrightarrow>
            app e req =
              \<lparr>response =
                 \<lparr>status = 500, out_headers = [],
                  payload = Json (JObj [(''error'', JStr ''Authentication failed''),
                                        (''message'', JStr ''Internal authentication error'')])\<rparr>,
               calls = [CallGetUser t]\<rparr>)
       \<and> (\<forall>usr. getUser e t = GetUserReturns (Some usr) None \<longrightarrow>
            app e req =
              \<lparr>response = response (proxy e req usr),
               calls = [CallGetUser t, CallAxios (axios_request (config e) req usr)]\<rparr>)"
  using app_bearer [OF assms, of e]
  by (auto simp: json_reply_def proxy_calls)

text \<open>The four outcomes in the sample world.\<close>

theorem C4_resolver_outcomes_witness:
  "status (response (app sample_env
      (sample_request ''GET'' ''/api/users'' [] [(''authorization'', ''Bearer expired'')]))) = 401
   \<and> calls (app sample_env
      (sample_request ''GET'' ''/api/users'' [] [(''authorization'', ''Bearer expired'')])) =
      [CallGetUser ''expired'']
   \<and> payload (response (app sample_env
      (sample_request ''GET'' ''/api/users'' [] [(''authorization'', ''Bearer ghost'')]))) =
      Json (JObj [(''error'', JStr ''Unauthorized''), (''message'', JStr ''User not found'')])
   \<and> status (response (app sample_env
      (sample_request ''GET'' ''/api/users'' [] [(''authorization'', ''Bearer x'')]))) = 500
   \<and> calls (app sample_env
      (sample_request ''GET'' ''/api/users'' [] [(''authorization'', ''Bearer good-token'')])) =
      [CallGetUser ''good-token'',
       CallAxios (axios_request sample_config
         (sample_request ''GET'' ''/api/users'' [] [(''authorization'', ''Bearer good-token'')])
         alice)]"
proof -
  let ?r = "\<lambda>t. sample_request ''GET'' ''/api/users'' [] [(''authorization'', ''Bearer '' @ t)]"
  have api: "\<And>t. api_path (path (?r t))"
    by (simp add: sample_request_def route_defs)
  have hdr: "\<And>t. js_get (headers (?r t)) ''authorization'' = Some (''Bearer '' @ t)"
    by (simp add: sample_request_def js_get_def)
  note inst = C4_resolver_outcomes [OF api hdr, where e = sample_env]
  have g: "getUser sample_env ''expired'' = GetUserReturns None (Some ''token is expired'')"
    "getUser sample_env ''ghost'' = GetUserReturns None None"
    "getUser sample_env ''x'' = GetUserThrows"
    "getUser sample_env ''good-token'' = GetUserReturns (Some alice) None"
    by (simp_all add: sample_env_def sample_getUser_def)
  have c: "config sample_env = sample_config" by (simp add: sample_env_def)
  show ?thesis
    using inst [where t = "''expired''"] inst [where t = "''ghost''"] inst [where t = "''x''"]
      inst [where t = "''good-token''"]
    by (simp add: g c)
qed

text \<open>
  C5.  For an authenticated request on the forwarding route whose downstream call raises:
  the code \<^verbatim>\<open>ECONNREFUSED\<close> is answered 503 with the body
  \<^verbatim>\<open>{"error":"Service Unavailable","message":"Internal API is not reachable"}\<close>, the code
  \<^verbatim>\<open>ETIMEDOUT\<close> 504 "Gateway Timeout", and every other error, with any code or none, 500
  "Internal Server Error".  In every case a response with a body is produced.
\<close>

theorem C5_transport_failures:
  assumes "api_path (path req)"
    and "js_get (headers req) ''authorization'' = Some (''Bearer '' @ t)"
    and "getUser e t = GetUserReturns (Some usr) None"
    and "axios e (axios_request (config e) req usr) = Fails code"
  shows "(code = Some ''ECONNREFUSED'' \<longrightarrow>
            response (app e req) =
              \<lparr>status = 503, out_headers = [],
               payload = Json (JObj [(''error'', JStr ''Service Unavailable''),
                                     (''message'', JStr ''Internal API is not reachable'')])\<rparr>
            \<and> wire (payload (response (app e req))) =
              Some ''{\"error\":\"Service Unavailable\",\"message\":\"Internal API is not reachable\"}'')
       \<and> (code = Some ''ETIMEDOUT'' \<longrightarrow>
            response (app e req) =
              \<lparr>status = 504, out_headers = [],
               payload = Json (JObj [(''error'', JStr ''Gateway Timeout''),
                                     (''message'', JStr ''Internal API request timed out'')])\<rparr>)
       \<and> (code \<noteq> Some ''ECONNREFUSED'' \<and> code \<noteq> Some ''ETIMEDOUT'' \<longrightarrow>
            response (app e req) =
              \<lparr>status = 500, out_headers = [],
               payload = Json (JObj [(''error'', JStr ''Internal Server Error''),
                                     (''message'',
                                      JStr ''An error occurred while proxying the request'')])\<rparr>)
       \<and> (\<exists>body. wire (payload (response (app e req))) = Some body)"
proof -
  have eq: "response (app e req) = proxy_error code"
    using app_authenticated [OF assms(1,2,3)] assms(4) by simp
  show ?thesis
    unfolding eq by (simp add: proxy_error_def json_reply_def quote_def escape_char_def)
qed

text \<open>A refused connection, a timeout and a reset connection in the sample world.\<close>

theorem C5_transport_failures_witness:
  "response (app sample_env
      (sample_request ''GET'' ''/api/down'' [] [(''authorization'', ''Bearer good-token'')])) =
     \<lparr>status = 503, out_headers = [],
      payload = Json (JObj [(''error'', JStr ''Service Unavailable''),
                            (''message'', JStr ''Internal API is not reachable'')])\<rparr>
   \<and> status (response (app sample_env
      (sample_request ''GET'' ''/api/slow'' [] [(''authorization'', ''Bearer good-token'')]))) = 504
   \<and> status (response (app sample_env
      (sample_request ''GET'' ''/api/reset'' [] [(''authorization'', ''Bearer good-token'')]))) = 500"
proof -
  let ?r = "\<lambda>u. sample_request ''GET'' (''/api/'' @ u) [] [(''authorization'', ''Bearer '' @ ''good-token'')]"
  have api: "\<And>u. api_path (path (?r u))"
    by (simp add: sample_request_def route_defs)
  have hdr: "\<And>u. js_get (headers (?r u)) ''authorization'' = Some (''Bearer '' @ ''good-token'')"
    by (simp add: sample_request_def js_get_def)
  have g: "getUser sample_env ''good-token'' = GetUserReturns (Some alice) None"
    by (simp add: sample_env_def sample_getUser_def)
  have ax: "axios sample_env (axios_request (config sample_env) (?r ''down'') alice) =
              Fails (Some ''ECONNREFUSED'')"
    "axios sample_env (axios_request (config sample_env) (?r ''slow'') alice) =
              Fails (Some ''ETIMEDOUT'')"
    "axios sample_env (axios_request (config sample_env) (?r ''reset'') alice) =
              Fails (Some ''ECONNRESET'')"
    by (simp_all add: sample_env_def sample_axios_def sample_config_def sample_request_def
        axios_request_def strip_api_def startsWith_def)
  show ?thesis
    using C5_transport_failures [OF api hdr g ax(1)] C5_transport_failures [OF api hdr g ax(2)]
      C5_transport_failures [OF api hdr g ax(3)]
    by simp
qed

subsection \<open>The header object of the downstream request\<close>

lemma js_set_fresh: "k \<notin> fst ` set kvs \<Longrightarrow> js_set kvs k v = kvs @ [(k, v)]"
  by (induction kvs) auto

lemma keys_js_set: "fst ` set (js_set kvs k v) = insert k (fst ` set kvs)"
  by (induction kvs) (force split: if_splits)+

lemma spread_Cons: "spread t ((k, v) # xs) = spread (js_set t k v) xs"
  by (simp add: spread_def)

lemma spread_fresh:
  "distinct (map fst xs) \<Longrightarrow> fst ` set xs \<inter> fst ` set t = {} \<Longrightarrow> spread t xs = t @ xs"
proof (induction xs arbitrary: t)
  case Nil
  then show ?case by (simp add: spread_def)
next
  case (Cons x xs)
  obtain k v where x: "x = (k, v)" by (cases x)
  from Cons.prems x have fresh: "k \<notin> fst ` set t" by auto
  have "spread t (x # xs) = spread (t @ [(k, v)]) xs"
    by (simp add: x spread_Cons js_set_fresh [OF fresh])
  also have "\<dots> = (t @ [(k, v)]) @ xs"
  proof (rule Cons.IH)
    show "distinct (map fst xs)" using Cons.prems by simp
    show "fst ` set xs \<inter> fst ` set (t @ [(k, v)]) = {}"
      using Cons.prems x by auto
  qed
  finally show ?case by (simp add: x)
qed

lemma keys_spread: "fst ` set (spread t xs) = fst ` set t \<union> fst ` set xs"
proof (induction xs arbitrary: t)
  case Nil
  then show ?case by (simp add: spread_def)
next
  case (Cons x xs)
  obtain k v where x: "x = (k, v)" by (cases x)
  show ?case by (simp add: x spread_Cons Cons.IH keys_js_set)
qed

lemma fromEntries_distinct: "distinct (map fst xs) \<Longrightarrow> fromEntries xs = xs"
  using spread_fresh [of xs "[]"] by (simp add: fromEntries_def)

lemma keys_fromEntries: "fst ` set (fromEntries xs) = fst ` set xs"
  by (simp add: fromEntries_def keys_spread)

text \<open>The properties the object literal sets before the spread of the request's headers.\<close>

lemma proxy_headers_injected:
  "proxy_headers cfg usr hs =
     spread
       ((''Content-Type'', ''application/json'') #
        (if INTERNAL_API_KEY cfg = [] then [] else [(''X-Internal-Key'', INTERNAL_API_KEY cfg)]) @
        [(''X-User-Id'', user_id usr), (''X-User-Email'', user_email usr)])
       (forwarded hs)"
  by (simp add: proxy_headers_def spread_def)

lemma injected_not_lower:
  "toLowerCase ''Content-Type'' \<noteq> ''Content-Type''"
  "toLowerCase ''X-Internal-Key'' \<noteq> ''X-Internal-Key''"
  "toLowerCase ''X-User-Id'' \<noteq> ''X-User-Id''"
  "toLowerCase ''X-User-Email'' \<noteq> ''X-User-Email''"
  by (simp_all add: toLowerCase_def lower_char_def)

lemma node_headers_key: "node_headers hs \<Longrightarrow> (k, v) \<in> set hs \<Longrightarrow> toLowerCase k = k"
  by (auto simp: node_headers_def list_all_iff)

lemma node_headers_filter: "node_headers hs \<Longrightarrow> node_headers (filter P hs)"
  by (auto simp: node_headers_def list_all_iff distinct_map_filter)

lemma proxy_headers_node:
  assumes "node_headers hs"
  shows "proxy_headers cfg usr hs =
     (''Content-Type'', ''application/json'') #
     (if INTERNAL_API_KEY cfg = [] then [] else [(''X-Internal-Key'', INTERNAL_API_KEY cfg)]) @
     [(''X-User-Id'', user_id usr), (''X-User-Email'', user_email usr)] @
     filter (\<lambda>(key, v).
       \<not> List.member [''authorization'', ''host'', ''content-length''] (toLowerCase key)) hs"
proof -
  let ?P = "\<lambda>(key, v :: string).
    \<not> List.member [''authorization'', ''host'', ''content-length''] (toLowerCase key)"
  have nf: "node_headers (filter ?P hs)" using assms by (rule node_headers_filter)
  then have d: "distinct (map fst (filter ?P hs))" by (simp add: node_headers_def)
  have fw: "forwarded hs = filter ?P hs"
    unfolding forwarded_def using d by (rule fromEntries_distinct)
  have low: "toLowerCase k = k" if "k \<in> fst ` set (filter ?P hs)" for k
  proof -
    from that obtain v where "(k, v) \<in> set (filter ?P hs)" by fastforce
    then show ?thesis by (rule node_headers_key [OF nf])
  qed
  have fresh:
    "''Content-Type'' \<notin> fst ` set (filter ?P hs)"
    "''X-Internal-Key'' \<notin> fst ` set (filter ?P hs)"
    "''X-User-Id'' \<notin> fst ` set (filter ?P hs)"
    "''X-User-Email'' \<notin> fst ` set (filter ?P hs)"
    using low [of "''Content-Type''"] low [of "''X-Internal-Key''"] low [of "''X-User-Id''"]
      low [of "''X-User-Email''"] injected_not_lower
    by blast+
  have disj: "fst ` set (filter ?P hs) \<inter>
      fst ` set ((''Content-Type'', ''application/json'') #
        (if INTERNAL_API_KEY cfg = [] then [] else [(''X-Internal-Key'', INTERNAL_API_KEY cfg)]) @
        [(''X-User-Id'', user_id usr), (''X-User-Email'', user_email usr)]) = {}"
    using fresh by (simp del: set_filter)
  show ?thesis
    unfolding proxy_headers_injected fw using spread_fresh [OF d disj] by simp
qed

lemma filter_key_distinct:
  "distinct (map fst xs) \<Longrightarrow> (k, v) \<in> set xs \<Longrightarrow> filter (\<lambda>(k', v'). k' = k) xs = [(k, v)]"
proof (induction xs)
  case Nil
  then show ?case by simp
next
  case (Cons x xs)
  show ?case
  proof (cases "fst x = k")
    case True
    with Cons.prems have "x = (k, v)" and "k \<notin> fst ` set xs"
      by (auto simp: rev_image_eqI)
    moreover from this have "filter (\<lambda>(k', v'). k' = k) xs = []"
      by (force simp: filter_empty_conv)
    ultimately show ?thesis by simp
  next
    case False
    with Cons show ?thesis by (auto split: prod.splits)
  qed
qed

lemma header_values_node:
  assumes "node_headers hs" and "(k, v) \<in> set hs" and "toLowerCase name = k"
  shows "header_values hs name = [v]"
proof -
  have "filter (\<lambda>(k', v'). toLowerCase k' = toLowerCase name) hs =
        filter (\<lambda>(k', v'). k' = k) hs"
    using node_headers_key [OF assms(1)] assms(3) by (intro filter_cong) auto
  also have "\<dots> = [(k, v)]"
    using assms(1,2) by (intro filter_key_distinct) (simp add: node_headers_def)
  finally show ?thesis by (simp add: header_values_def)
qed

lemma header_values_append:
  "header_values (xs @ ys) name = header_values xs name @ header_values ys name"
  by (simp add: header_values_def)

lemma http_header_last: "header_values hs name = vs @ [v] \<Longrightarrow> http_header hs name = Some v"
  by (cases vs) (simp_all add: http_header_def)

text \<open>
  C2.  For request headers as Node delivers them (lower-case names, each once): a header of
  the request other than \<^verbatim>\<open>authorization\<close>, \<^verbatim>\<open>host\<close> and \<^verbatim>\<open>content-length\<close> reaches the
  downstream request with the caller's value, under whatever spelling its name is read.
  The request's headers are spread after the properties the proxy writes, so this holds also
  for \<^verbatim>\<open>x-user-id\<close>, \<^verbatim>\<open>x-user-email\<close>, \<^verbatim>\<open>x-internal-key\<close> and \<^verbatim>\<open>content-type\<close>: the
  caller's value is carried instead of the identity's id, the identity's email, the
  configured secret and \<^verbatim>\<open>application/json\<close>.
\<close>

theorem C2_request_headers_win:
  assumes "node_headers (headers req)"
    and "js_get (headers req) k = Some v"
    and "\<not> List.member [''authorization'', ''host'', ''content-length''] k"
    and "toLowerCase name = k"
  shows "http_header (ax_headers (axios_request cfg req usr)) name = Some v"
proof -
  let ?P = "\<lambda>(key, v :: string).
    \<not> List.member [''authorization'', ''host'', ''content-length''] (toLowerCase key)"
  let ?injected = "(''Content-Type'', ''application/json'') #
     (if INTERNAL_API_KEY cfg = [] then [] else [(''X-Internal-Key'', INTERNAL_API_KEY cfg)]) @
     [(''X-User-Id'', user_id usr), (''X-User-Email'', user_email usr)]"
  have mem: "(k, v) \<in> set (headers req)"
    using assms(2) by (simp add: js_get_def map_of_SomeD)
  have low: "toLowerCase k = k" using assms(1) mem by (rule node_headers_key)
  have kept: "(k, v) \<in> set (filter ?P (headers req))"
    using mem assms(3) low by simp
  have "header_values (filter ?P (headers req)) name = [v]"
    using node_headers_filter [OF assms(1)] kept assms(4) by (rule header_values_node)
  then have "header_values (?injected @ filter ?P (headers req)) name =
      header_values ?injected name @ [v]"
    by (simp only: header_values_append)
  then have "http_header (?injected @ filter ?P (headers req)) name = Some v"
    by (rule http_header_last)
  moreover have "ax_headers (axios_request cfg req usr) = ?injected @ filter ?P (headers req)"
    using proxy_headers_node [OF assms(1)] by (simp add: axios_request_def Let_def)
  ultimately show ?thesis by simp
qed

text \<open>A request that supplies all four headers itself.\<close>

theorem C2_request_headers_win_witness:
  "http_header (ax_headers (axios_request sample_config
      (sample_request ''POST'' ''/api/users'' []
         [(''authorization'', ''Bearer good-token''), (''x-user-id'', ''attacker''),
          (''x-user-email'', ''root@corp''), (''x-internal-key'', ''guess''),
          (''content-type'', ''text/plain'')]) alice)) ''X-User-Id'' = Some ''attacker''
   \<and> http_header (ax_headers (axios_request sample_config
      (sample_request ''POST'' ''/api/users'' []
         [(''authorization'', ''Bearer good-token''), (''x-user-id'', ''attacker''),
          (''x-user-email'', ''root@corp''), (''x-internal-key'', ''guess''),
          (''content-type'', ''text/plain'')]) alice)) ''X-User-Email'' = Some ''root@corp''
   \<and> http_header (ax_headers (axios_request sample_config
      (sample_request ''POST'' ''/api/users'' []
         [(''authorization'', ''Bearer good-token''), (''x-user-id'', ''attacker''),
          (''x-user-email'', ''root@corp''), (''x-internal-key'', ''guess''),
          (''content-type'', ''text/plain'')]) alice)) ''X-Internal-Key'' = Some ''guess''
   \<and> http_header (ax_headers (axios_request sample_config
      (sample_request ''POST'' ''/api/users'' []
         [(''authorization'', ''Bearer good-token''), (''x-user-id'', ''attacker''),
          (''x-user-email'', ''root@corp''), (''x-internal-key'', ''guess''),
          (''content-type'', ''text/plain'')]) alice)) ''Content-Type'' = Some ''text/plain''"
proof -
  let ?hs = "[(''authorization'', ''Bearer good-token''), (''x-user-id'', ''attacker''),
          (''x-user-email'', ''root@corp''), (''x-internal-key'', ''guess''),
          (''content-type'', ''text/plain'')]"
  let ?req = "sample_request ''POST'' ''/api/users'' [] ?hs"
  have h: "headers ?req = ?hs" by (simp add: sample_request_def)
  have n: "node_headers (headers ?req)"
    unfolding h by (simp add: node_headers_def toLowerCase_def lower_char_def)
  have g: "js_get (headers ?req) ''x-user-id'' = Some ''attacker''"
    "js_get (headers ?req) ''x-user-email'' = Some ''root@corp''"
    "js_get (headers ?req) ''x-internal-key'' = Some ''guess''"
    "js_get (headers ?req) ''content-type'' = Some ''text/plain''"
    unfolding h by (simp_all add: js_get_def)
  have b: "\<not> List.member [''authorization'', ''host'', ''content-length''] ''x-user-id''"
    "\<not> List.member [''authorization'', ''host'', ''content-length''] ''x-user-email''"
    "\<not> List.member [''authorization'', ''host'', ''content-length''] ''x-internal-key''"
    "\<not> List.member [''authorization'', ''host'', ''content-length''] ''content-type''"
    by simp_all
  have l: "toLowerCase ''X-User-Id'' = ''x-user-id''"
    "toLowerCase ''X-User-Email'' = ''x-user-email''"
    "toLowerCase ''X-Internal-Key'' = ''x-internal-key''"
    "toLowerCase ''Content-Type'' = ''content-type''"
    by (simp_all add: toLowerCase_def lower_char_def)
  show ?thesis
    using C2_request_headers_win [OF n g(1) b(1) l(1), of sample_config alice]
      C2_request_headers_win [OF n g(2) b(2) l(2), of sample_config alice]
      C2_request_headers_win [OF n g(3) b(3) l(3), of sample_config alice]
      C2_request_headers_win [OF n g(4) b(4) l(4), of sample_config alice]
    by (intro conjI)
qed

text \<open>
  What holds of the downstream headers for every request, whatever its headers:
  \<^verbatim>\<open>authorization\<close>, \<^verbatim>\<open>host\<close> and \<^verbatim>\<open>content-length\<close> are never passed on.
\<close>

lemma http_header_None:
  "(\<And>k. k \<in> fst ` set hs \<Longrightarrow> toLowerCase k \<noteq> toLowerCase name) \<Longrightarrow>
   http_header hs name = None"
proof -
  assume a: "\<And>k. k \<in> fst ` set hs \<Longrightarrow> toLowerCase k \<noteq> toLowerCase name"
  have "filter (\<lambda>(k, v). toLowerCase k = toLowerCase name) hs = []"
    unfolding filter_empty_conv
  proof
    fix x
    assume "x \<in> set hs"
    then have "fst x \<in> fst ` set hs" by (rule imageI)
    from a [OF this] show "\<not> (case x of (k, v) \<Rightarrow> toLowerCase k = toLowerCase name)"
      by (simp add: case_prod_beta)
  qed
  then show ?thesis by (simp add: http_header_def header_values_def)
qed

lemma injected_lower:
  "toLowerCase ''Content-Type'' = ''content-type''"
  "toLowerCase ''X-Internal-Key'' = ''x-internal-key''"
  "toLowerCase ''X-User-Id'' = ''x-user-id''"
  "toLowerCase ''X-User-Email'' = ''x-user-email''"
  by (simp_all add: toLowerCase_def lower_char_def)

lemma blocked_not_forwarded:
  assumes "List.member [''authorization'', ''host'', ''content-length''] (toLowerCase name)"
  shows "http_header (ax_headers (axios_request cfg req usr)) name = None"
proof -
  let ?P = "\<lambda>(key, v :: string).
    \<not> List.member [''authorization'', ''host'', ''content-length''] (toLowerCase key)"
  let ?injected = "(''Content-Type'', ''application/json'') #
     (if INTERNAL_API_KEY cfg = [] then [] else [(''X-Internal-Key'', INTERNAL_API_KEY cfg)]) @
     [(''X-User-Id'', user_id usr), (''X-User-Email'', user_email usr)]"
  from assms have n: "toLowerCase name = ''authorization'' \<or> toLowerCase name = ''host''
      \<or> toLowerCase name = ''content-length''"
    by simp
  have keys: "fst ` set (proxy_headers cfg usr (headers req)) =
      fst ` set ?injected \<union> fst ` set (filter ?P (headers req))"
    by (simp only: proxy_headers_injected forwarded_def keys_spread keys_fromEntries)
  have inj: "toLowerCase k = ''content-type'' \<or> toLowerCase k = ''x-internal-key''
      \<or> toLowerCase k = ''x-user-id'' \<or> toLowerCase k = ''x-user-email''"
    if "k \<in> fst ` set ?injected" for k
  proof -
    from that have "k = ''Content-Type'' \<or> k = ''X-Internal-Key'' \<or> k = ''X-User-Id''
        \<or> k = ''X-User-Email''"
      by (cases "INTERNAL_API_KEY cfg = []") auto
    then show ?thesis using injected_lower by (elim disjE) simp_all
  qed
  have "toLowerCase k \<noteq> toLowerCase name"
    if "k \<in> fst ` set (proxy_headers cfg usr (headers req))" for k
  proof -
    from that keys consider "k \<in> fst ` set ?injected"
      | "k \<in> fst ` set (filter ?P (headers req))" by blast
    then show ?thesis
    proof cases
      case 1
      from inj [OF 1] n show ?thesis by (elim disjE) simp_all
    next
      case 2
      then obtain v where "(k, v) \<in> set (filter ?P (headers req))" by fastforce
      then have "toLowerCase k \<noteq> ''authorization'' \<and> toLowerCase k \<noteq> ''host''
          \<and> toLowerCase k \<noteq> ''content-length''"
        by simp
      with n show ?thesis by (elim disjE) simp_all
    qed
  qed
  then have "http_header (proxy_headers cfg usr (headers req)) name = None"
    by (rule http_header_None)
  moreover have "ax_headers (axios_request cfg req usr) = proxy_headers cfg usr (headers req)"
    by (simp add: axios_request_def Let_def)
  ultimately show ?thesis by (simp only:)
qed

lemma sample_user: "getUser sample_env ''good-token'' = GetUserReturns (Some alice) None"
  by (simp add: sample_env_def sample_getUser_def)

lemma sample_cfg: "config sample_env = sample_config"
  by (simp add: sample_env_def)

text \<open>
  C1, evaluated on a request that brings its own \<^verbatim>\<open>x-user-id\<close>.  The token resolves to the
  user with id \<^verbatim>\<open>u1\<close>; the header object passed to axios holds \<^verbatim>\<open>X-User-Id: u1\<close> and, after
  it, the caller's \<^verbatim>\<open>x-user-id: attacker\<close>; the downstream request carries \<^verbatim>\<open>X-User-Id\<close> with
  the value \<^verbatim>\<open>attacker\<close>, which is not the id of the resolved identity.
\<close>

theorem C1_identity_headers_overridden:
  "calls (app sample_env
     (sample_request ''GET'' ''/api/users'' []
        [(''authorization'', ''Bearer good-token''), (''x-user-id'', ''attacker'')])) =
     [CallGetUser ''good-token'',
      CallAxios (axios_request sample_config
        (sample_request ''GET'' ''/api/users'' []
           [(''authorization'', ''Bearer good-token''), (''x-user-id'', ''attacker'')]) alice)]
   \<and> ax_headers (axios_request sample_config
        (sample_request ''GET'' ''/api/users'' []
           [(''authorization'', ''Bearer good-token''), (''x-user-id'', ''attacker'')]) alice) =
     [(''Content-Type'', ''application/json''), (''X-Internal-Key'', ''secret''),
      (''X-User-Id'', ''u1''), (''X-User-Email'', ''a@b.com''), (''x-user-id'', ''attacker'')]
   \<and> http_header (ax_headers (axios_request sample_config
        (sample_request ''GET'' ''/api/users'' []
           [(''authorization'', ''Bearer good-token''), (''x-user-id'', ''attacker'')]) alice))
        ''X-User-Id'' = Some ''attacker''
   \<and> user_id alice = ''u1''"
proof -
  let ?req = "sample_request ''GET'' ''/api/users'' []
        [(''authorization'', ''Bearer '' @ ''good-token''), (''x-user-id'', ''attacker'')]"
  have api: "api_path (path ?req)"
    by (simp add: sample_request_def route_defs)
  have hdr: "js_get (headers ?req) ''authorization'' = Some (''Bearer '' @ ''good-token'')"
    by (simp add: sample_request_def js_get_def)
  have 1: "calls (app sample_env ?req) =
     [CallGetUser ''good-token'', CallAxios (axios_request sample_config ?req alice)]"
    using app_authenticated [OF api hdr sample_user] by (simp add: sample_cfg)
  have 2: "ax_headers (axios_request sample_config ?req alice) =
     [(''Content-Type'', ''application/json''), (''X-Internal-Key'', ''secret''),
      (''X-User-Id'', ''u1''), (''X-User-Email'', ''a@b.com''), (''x-user-id'', ''attacker'')]"
    by (simp add: axios_request_def proxy_headers_def forwarded_def fromEntries_def spread_def
        sample_request_def sample_config_def alice_def toLowerCase_def lower_char_def)
  have 3: "http_header
     [(''Content-Type'', ''application/json''), (''X-Internal-Key'', ''secret''),
      (''X-User-Id'', ''u1''), (''X-User-Email'', ''a@b.com''), (''x-user-id'', ''attacker'')]
     ''X-User-Id'' = Some ''attacker''"
    by (simp add: http_header_def header_values_def toLowerCase_def lower_char_def)
  have 4: "user_id alice = ''u1''" by (simp add: alice_def)
  from 1 2 3 4 show ?thesis by simp
qed

subsection \<open>The relay of the downstream response\<close>

lemma lower_char_idem: "lower_char (lower_char c) = lower_char c"
  by (simp add: lower_char_def)

lemma toLowerCase_idem: "toLowerCase (toLowerCase s) = toLowerCase s"
  by (simp add: toLowerCase_def lower_char_idem)

lemma map_of_js_set: "map_of (js_set kvs k v) = (map_of kvs)(k \<mapsto> v)"
  by (induction kvs) auto

lemma distinct_js_set: "distinct (map fst kvs) \<Longrightarrow> distinct (map fst (js_set kvs k v))"
proof (induction kvs)
  case Nil
  then show ?case by simp
next
  case (Cons p kvs)
  then show ?case by (cases p) (auto simp: keys_js_set)
qed


lemma node_headers_setHeader: "node_headers hs \<Longrightarrow> node_headers (setHeader hs name v)"
proof -
  assume n: "node_headers hs"
  have "\<And>k w. (k, w) \<in> set (js_set hs (toLowerCase name) v) \<Longrightarrow> toLowerCase k = k"
  proof -
    fix k w
    assume "(k, w) \<in> set (js_set hs (toLowerCase name) v)"
    then have "k \<in> fst ` set (js_set hs (toLowerCase name) v)" by force
    then have "k = toLowerCase name \<or> k \<in> fst ` set hs" by (simp add: keys_js_set)
    then show "toLowerCase k = k"
      using node_headers_key [OF n] by (auto simp: toLowerCase_idem)
  qed
  then show ?thesis
    using n by (auto simp: node_headers_def setHeader_def distinct_js_set list_all_iff)
qed

lemma http_header_table:
  assumes "node_headers hs"
  shows "http_header hs name = map_of hs (toLowerCase name)"
proof (cases "map_of hs (toLowerCase name)")
  case None
  then have "toLowerCase name \<notin> fst ` set hs" by (simp add: map_of_eq_None_iff)
  then have "filter (\<lambda>(k', v'). toLowerCase k' = toLowerCase name) hs = []"
    using node_headers_key [OF assms] by (force simp: filter_empty_conv)
  then show ?thesis using None by (simp add: http_header_def header_values_def)
next
  case (Some v)
  then have "(toLowerCase name, v) \<in> set hs" by (rule map_of_SomeD)
  with assms have "header_values hs name = [v]"
    by (rule header_values_node) simp
  then show ?thesis using Some by (simp add: http_header_def)
qed

lemma http_header_snoc:
  "http_header (hs @ [(k, v)]) name =
     (if toLowerCase k = toLowerCase name then Some v else http_header hs name)"
proof (cases "toLowerCase k = toLowerCase name")
  case True
  then have "header_values (hs @ [(k, v)]) name = header_values hs name @ [v]"
    by (simp add: header_values_def)
  then have "http_header (hs @ [(k, v)]) name = Some v" by (rule http_header_last)
  with True show ?thesis by simp
next
  case False
  then have "header_values (hs @ [(k, v)]) name = header_values hs name"
    by (simp add: header_values_def)
  with False show ?thesis by (simp add: http_header_def)
qed

lemma relay_headers:
  "node_headers (fold (\<lambda>(key, v) hs. setHeader hs key v) xs []) \<and>
   (\<forall>name. http_header (fold (\<lambda>(key, v) hs. setHeader hs key v) xs []) name =
           http_header xs name)"
proof (induction xs rule: rev_induct)
  case Nil
  show ?case by (simp add: node_headers_def http_header_def header_values_def)
next
  case (snoc x xs)
  obtain k v where x: "x = (k, v)" by (cases x)
  let ?T = "fold (\<lambda>(key, v) hs. setHeader hs key v) xs []"
  from snoc have n: "node_headers ?T"
    and ih: "\<And>name. http_header ?T name = http_header xs name" by simp_all
  have f: "fold (\<lambda>(key, v) hs. setHeader hs key v) (xs @ [x]) [] = setHeader ?T k v"
    by (simp add: x)
  have n': "node_headers (setHeader ?T k v)" using n by (rule node_headers_setHeader)
  have "http_header (setHeader ?T k v) name = http_header (xs @ [x]) name" for name
  proof -
    have "http_header (setHeader ?T k v) name = map_of (setHeader ?T k v) (toLowerCase name)"
      using n' by (rule http_header_table)
    also have "\<dots> = (if toLowerCase k = toLowerCase name then Some v
                      else map_of ?T (toLowerCase name))"
      by (auto simp: setHeader_def map_of_js_set)
    also have "map_of ?T (toLowerCase name) = http_header xs name"
      using http_header_table [OF n, of name] ih [of name] by simp
    finally show ?thesis by (simp add: x http_header_snoc)
  qed
  with n' show ?case unfolding f by simp
qed

subsection \<open>The downstream request\<close>

text \<open>
  The method, the body and the parsed query are passed on as they are, redirects are not
  followed and no status raises; the URL is the base, one slash and what is left of
  \<^verbatim>\<open>req.url\<close> after the prefix.
\<close>

lemma axios_request_fields:
  "ax_method (axios_request cfg req usr) = http_method req"
  "ax_data (axios_request cfg req usr) = body req"
  "ax_params (axios_request cfg req usr) = query req"
  "ax_maxRedirects (axios_request cfg req usr) = 0"
  "ax_validateStatus (axios_request cfg req usr) code"
  "ax_url (axios_request cfg req usr) = INTERNAL_API_URL cfg @ ''/'' @ strip_api (url req)"
  by (simp_all add: axios_request_def Let_def)

lemma strip_api_suffix: "strip_api (''/api/'' @ suffix) = suffix"
  by (simp add: strip_api_def startsWith_def)

text \<open>
  C7, evaluated on \<^verbatim>\<open>GET /api/users?x=1\<close>.  \<^verbatim>\<open>req.url\<close> holds the query string, so the URL
  passed to axios is \<^verbatim>\<open>http://internal:8080/users?x=1\<close>; the parsed query is passed as
  \<^verbatim>\<open>params\<close> as well, and axios appends it: the downstream service is asked for
  \<^verbatim>\<open>/users?x=1&x=1\<close>, the parameter twice.
\<close>

theorem C7_query_forwarded_twice:
  "calls (app sample_env
     (sample_request ''GET'' ''/api/users?x=1'' [(''x'', ''1'')]
        [(''authorization'', ''Bearer good-token'')])) =
     [CallGetUser ''good-token'',
      CallAxios (axios_request sample_config
        (sample_request ''GET'' ''/api/users?x=1'' [(''x'', ''1'')]
           [(''authorization'', ''Bearer good-token'')]) alice)]
   \<and> ax_url (axios_request sample_config
        (sample_request ''GET'' ''/api/users?x=1'' [(''x'', ''1'')]
           [(''authorization'', ''Bearer good-token'')]) alice) =
     ''http://internal:8080/users?x=1''
   \<and> ax_params (axios_request sample_config
        (sample_request ''GET'' ''/api/users?x=1'' [(''x'', ''1'')]
           [(''authorization'', ''Bearer good-token'')]) alice) = [(''x'', ''1'')]
   \<and> buildURL ''http://internal:8080/users?x=1'' [(''x'', ''1'')] =
     Some ''http://internal:8080/users?x=1&x=1''"
proof -
  let ?req = "sample_request ''GET'' ''/api/users?x=1'' [(''x'', ''1'')]
     [(''authorization'', ''Bearer '' @ ''good-token'')]"
  have api: "api_path (path ?req)"
    by (simp add: sample_request_def route_defs)
  have hdr: "js_get (headers ?req) ''authorization'' = Some (''Bearer '' @ ''good-token'')"
    by (simp add: sample_request_def js_get_def)
  have 1: "calls (app sample_env ?req) =
     [CallGetUser ''good-token'', CallAxios (axios_request sample_config ?req alice)]"
    using app_authenticated [OF api hdr sample_user] by (simp add: sample_cfg)
  have 2: "ax_url (axios_request sample_config ?req alice) = ''http://internal:8080/users?x=1''"
    by (simp add: axios_request_fields sample_config_def sample_request_def strip_api_def
        startsWith_def)
  have 3: "ax_params (axios_request sample_config ?req alice) = [(''x'', ''1'')]"
    by (simp add: axios_request_fields sample_request_def)
  have 4: "buildURL ''http://internal:8080/users?x=1'' [(''x'', ''1'')] =
     Some ''http://internal:8080/users?x=1&x=1''"
    by (simp add: buildURL_def unreserved_def)
  from 1 2 3 4 show ?thesis by simp
qed

subsection \<open>What the client receives\<close>

lemma express_json:
  assumes "out_headers r = []" and "payload r = Json v"
  shows "express statuses req r = finish req (status r) [] (Some (JSON_stringify v))"
  using assms by (simp add: express_def js_get_def)

lemma not_fresh_without_validator:
  "\<not> truthy (headers req) ''if-none-match'' \<Longrightarrow> req_fresh req code [] = Some False"
  by (simp add: req_fresh_def fresh_check_def truthy_def js_get_def)

lemma finish_not_fresh:
  assumes "req_fresh req code hs = Some False" and "200 \<le> code" and "code \<le> 999"
    and "code \<noteq> 204" and "code \<noteq> 205" and "code \<noteq> 304"
  shows "finish req code hs chunk =
    Some \<lparr>w_status = code,
          w_body = (if http_method req = ''HEAD'' then []
                    else case chunk of None \<Rightarrow> [] | Some text \<Rightarrow> text)\<rparr>"
  using assms by (simp add: finish_def)


text \<open>
  C9, amended.  Every \<^verbatim>\<open>GET\<close> request to the health path that carries no
  \<^verbatim>\<open>If-None-Match\<close> header is answered 200 with the body
  \<^verbatim>\<open>{status: "ok", timestamp, supabase, internalApi}\<close>: the current time and the two
  configured URLs.  No outbound call is made, and the other headers of the request, the
  \<^verbatim>\<open>Authorization\<close> header among them, play no part.
\<close>

theorem C9_health:
  assumes "http_method req = ''GET''"
    and "health_path (path req)"
    and "\<not> truthy (headers req) ''if-none-match''"
  shows "app e req =
      \<lparr>response =
         \<lparr>status = 200, out_headers = [],
          payload =
            Json (JObj [(''status'', JStr ''ok''),
                        (''timestamp'', JStr (now e)),
                        (''supabase'', JStr (SUPABASE_URL (config e))),
                        (''internalApi'', JStr (INTERNAL_API_URL (config e)))])\<rparr>,
       calls = []\<rparr>
    \<and> express statuses req (response (app e req)) =
        Some \<lparr>w_status = 200,
              w_body =
                JSON_stringify
                  (JObj [(''status'', JStr ''ok''),
                         (''timestamp'', JStr (now e)),
                         (''supabase'', JStr (SUPABASE_URL (config e))),
                         (''internalApi'', JStr (INTERNAL_API_URL (config e)))])\<rparr>"
proof -
  let ?doc = "JObj [(''status'', JStr ''ok''),
                    (''timestamp'', JStr (now e)),
                    (''supabase'', JStr (SUPABASE_URL (config e))),
                    (''internalApi'', JStr (INTERNAL_API_URL (config e)))]"
  have eq: "app e req =
      \<lparr>response = \<lparr>status = 200, out_headers = [], payload = Json ?doc\<rparr>, calls = []\<rparr>"
    using assms(1,2) by (simp add: app_def health_def json_reply_def)
  have "express statuses req \<lparr>status = 200, out_headers = [], payload = Json ?doc\<rparr> =
      finish req 200 [] (Some (JSON_stringify ?doc))"
    using express_json [of "\<lparr>status = 200, out_headers = [], payload = Json ?doc\<rparr>" ?doc] by simp
  also have "\<dots> = Some \<lparr>w_status = 200, w_body = JSON_stringify ?doc\<rparr>"
    using finish_not_fresh [OF not_fresh_without_validator [OF assms(3), of 200], of "Some (JSON_stringify ?doc)"]
      assms(1)
    by simp
  finally show ?thesis unfolding eq by (simp del: JSON_stringify.simps)
qed

text \<open>
  C9, as stated for every request to \<^verbatim>\<open>/health\<close>, fails in two ways.  The route is
  registered with \<^verbatim>\<open>app.get\<close>, so \<^verbatim>\<open>POST /health\<close> falls through to the catch-all and is
  answered 404.  And \<^verbatim>\<open>res.json\<close> answers a fresh conditional request with 304 and no body:
  \<^verbatim>\<open>GET /health\<close> with \<^verbatim>\<open>If-None-Match: *\<close>.
\<close>

theorem C9_health_counterexample:
  "express sample_statuses (sample_request ''POST'' ''/health'' [] [])
     (response (app sample_env (sample_request ''POST'' ''/health'' [] []))) =
     Some \<lparr>w_status = 404,
           w_body = ''{\"error\":\"Not Found\",\"message\":\"Invalid endpoint. API routes should start with /api/\"}''\<rparr>
   \<and> express sample_statuses (sample_request ''GET'' ''/health'' [] [(''if-none-match'', ''*'')])
     (response (app sample_env (sample_request ''GET'' ''/health'' [] [(''if-none-match'', ''*'')]))) =
     Some \<lparr>w_status = 304, w_body = []\<rparr>"
proof -
  have 1: "response (app sample_env (sample_request ''POST'' ''/health'' [] [])) =
      json_reply 404
        (JObj [(''error'', JStr ''Not Found''),
               (''message'', JStr ''Invalid endpoint. API routes should start with /api/'')])"
    by (simp add: app_def catch_all_def sample_request_def route_defs)
  have 2: "response (app sample_env
        (sample_request ''GET'' ''/health'' [] [(''if-none-match'', ''*'')])) =
      json_reply 200
        (JObj [(''status'', JStr ''ok''),
               (''timestamp'', JStr (now sample_env)),
               (''supabase'', JStr (SUPABASE_URL (config sample_env))),
               (''internalApi'', JStr (INTERNAL_API_URL (config sample_env)))])"
    by (simp add: app_def health_def sample_request_def route_defs)
  show ?thesis
    unfolding 1 2
    by (simp add: express_def finish_def req_fresh_def fresh_check_def truthy_def js_get_def
        json_reply_def sample_request_def quote_def escape_char_def)
qed

text \<open>With and without an \<^verbatim>\<open>authorization\<close> header the answer is the same.\<close>

theorem C9_health_witness:
  "express sample_statuses (sample_request ''GET'' ''/health'' [] [])
     (response (app sample_env (sample_request ''GET'' ''/health'' [] []))) =
     Some \<lparr>w_status = 200,
           w_body = ''{\"status\":\"ok\",\"timestamp\":\"2025-11-04T10:00:00.000Z\",\"supabase\":\"http://supabase:8000\",\"internalApi\":\"http://internal:8080\"}''\<rparr>
   \<and> app sample_env (sample_request ''GET'' ''/health'' [] [(''authorization'', ''Bearer x'')]) =
     app sample_env (sample_request ''GET'' ''/health'' [] [])
   \<and> calls (app sample_env (sample_request ''GET'' ''/health'' [] [])) = []"
proof -
  have m: "\<And>hs. http_method (sample_request ''GET'' ''/health'' [] hs) = ''GET''"
    by (simp add: sample_request_def)
  have p: "\<And>hs. health_path (path (sample_request ''GET'' ''/health'' [] hs))"
    by (simp add: sample_request_def route_defs)
  have f: "\<not> truthy (headers (sample_request ''GET'' ''/health'' [] [])) ''if-none-match''"
    "\<not> truthy (headers (sample_request ''GET'' ''/health'' [] [(''authorization'', ''Bearer x'')]))
       ''if-none-match''"
    by (simp_all add: sample_request_def truthy_def js_get_def)
  have a: "now sample_env = ''2025-11-04T10:00:00.000Z''"
    "SUPABASE_URL (config sample_env) = ''http://supabase:8000''"
    "INTERNAL_API_URL (config sample_env) = ''http://internal:8080''"
    by (simp_all add: sample_env_def sample_config_def)
  note i1 = C9_health [of "sample_request ''GET'' ''/health'' [] []" sample_env sample_statuses,
      OF m p f(1)]
  note i2 = C9_health [of "sample_request ''GET'' ''/health'' [] [(''authorization'', ''Bearer x'')]"
      sample_env sample_statuses, OF m p f(2)]
  from i1 [THEN conjunct2] have 1: "express sample_statuses (sample_request ''GET'' ''/health'' [] [])
     (response (app sample_env (sample_request ''GET'' ''/health'' [] []))) =
     Some \<lparr>w_status = 200,
           w_body = ''{\"status\":\"ok\",\"timestamp\":\"2025-11-04T10:00:00.000Z\",\"supabase\":\"http://supabase:8000\",\"internalApi\":\"http://internal:8080\"}''\<rparr>"
    by (simp add: a quote_def escape_char_def)
  from i1 [THEN conjunct1] i2 [THEN conjunct1] have 2:
    "app sample_env (sample_request ''GET'' ''/health'' [] [(''authorization'', ''Bearer x'')]) =
     app sample_env (sample_request ''GET'' ''/health'' [] [])"
    by simp
  from i1 [THEN conjunct1] have 3: "calls (app sample_env (sample_request ''GET'' ''/health'' [] [])) = []"
    by simp
  from 1 2 3 show ?thesis by (intro conjI)
qed




text \<open>
  C6, evaluated on two downstream responses with status 200.  The body \<^verbatim>\<open>404\<close> is a JSON
  text, so axios delivers the number 404 and \<^verbatim>\<open>res.send\<close> takes it for the status code: the
  client is answered 404 with the body \<^verbatim>\<open>Not Found\<close>, neither the downstream status nor the
  downstream body.  The body \<^verbatim>\<open>{"name": "alice"}\<close> is parsed and written again in compact
  form, \<^verbatim>\<open>{"name":"alice"}\<close>.
\<close>

theorem C6_numeric_body_becomes_status:
  "transformResponse ''404'' = Some (JNum 404)
   \<and> axios sample_env (axios_request sample_config
        (sample_request ''GET'' ''/api/count'' [] [(''authorization'', ''Bearer good-token'')])
        alice) =
     Responds \<lparr>resp_status = 200, resp_headers = [(''content-type'', ''application/json'')],
               resp_data = JNum 404\<rparr>
   \<and> express sample_statuses
       (sample_request ''GET'' ''/api/count'' [] [(''authorization'', ''Bearer good-token'')])
       (response (app sample_env
         (sample_request ''GET'' ''/api/count'' [] [(''authorization'', ''Bearer good-token'')]))) =
     Some \<lparr>w_status = 404, w_body = ''Not Found''\<rparr>
   \<and> transformResponse ''{\"name\": \"alice\"}'' = Some (JObj [(''name'', JStr ''alice'')])
   \<and> express sample_statuses
       (sample_request ''GET'' ''/api/users'' [] [(''authorization'', ''Bearer good-token'')])
       (response (app sample_env
         (sample_request ''GET'' ''/api/users'' [] [(''authorization'', ''Bearer good-token'')]))) =
     Some \<lparr>w_status = 200, w_body = ''{\"name\":\"alice\"}''\<rparr>"
proof -
  let ?r = "\<lambda>u. sample_request ''GET'' (''/api/'' @ u) []
     [(''authorization'', ''Bearer '' @ ''good-token'')]"
  have api: "\<And>u. api_path (path (?r u))"
    by (simp add: sample_request_def route_defs)
  have hdr: "\<And>u. js_get (headers (?r u)) ''authorization'' = Some (''Bearer '' @ ''good-token'')"
    by (simp add: sample_request_def js_get_def)
  have ax: "axios sample_env (axios_request sample_config (?r ''count'') alice) =
      Responds \<lparr>resp_status = 200, resp_headers = [(''content-type'', ''application/json'')],
                resp_data = JNum 404\<rparr>"
    "axios sample_env (axios_request sample_config (?r ''users'') alice) =
      Responds \<lparr>resp_status = 200, resp_headers = [(''content-type'', ''application/json'')],
                resp_data = JObj [(''name'', JStr ''alice'')]\<rparr>"
    by (simp_all add: sample_env_def sample_axios_def sample_config_def sample_request_def
        axios_request_def strip_api_def startsWith_def)
  have t: "transformResponse ''404'' = Some (JNum 404)"
    "transformResponse ''{\"name\": \"alice\"}'' = Some (JObj [(''name'', JStr ''alice'')])"
    by code_simp+
  have r1: "response (app sample_env (?r ''count'')) =
      relay \<lparr>resp_status = 200, resp_headers = [(''content-type'', ''application/json'')],
             resp_data = JNum 404\<rparr>"
    using app_authenticated [OF api hdr sample_user, of "''count''"] ax(1)
    by (simp add: sample_cfg)
  have r2: "response (app sample_env (?r ''users'')) =
      relay \<lparr>resp_status = 200, resp_headers = [(''content-type'', ''application/json'')],
             resp_data = JObj [(''name'', JStr ''alice'')]\<rparr>"
    using app_authenticated [OF api hdr sample_user, of "''users''"] ax(2)
    by (simp add: sample_cfg)
  have m: "simple_media_type ''application/json''"
    by (simp add: simple_media_type_def token_char_def)
  have rl: "\<And>d. relay \<lparr>resp_status = 200,
        resp_headers = [(''content-type'', ''application/json'')], resp_data = d\<rparr> =
      \<lparr>status = 200, out_headers = [(''content-type'', ''application/json'')],
       payload = Send d\<rparr>"
    by (simp add: relay_def setHeader_def toLowerCase_def lower_char_def)
  have e1: "express sample_statuses (?r ''count'') (response (app sample_env (?r ''count''))) =
      Some \<lparr>w_status = 404, w_body = ''Not Found''\<rparr>"
    unfolding r1 rl
    by (simp add: express_def m finish_def req_fresh_def fresh_check_def truthy_def
        js_get_def sample_request_def sample_statuses_def)
  have e2: "express sample_statuses (?r ''users'') (response (app sample_env (?r ''users''))) =
      Some \<lparr>w_status = 200, w_body = ''{\"name\":\"alice\"}''\<rparr>"
    unfolding r2 rl
    by (simp add: express_def m finish_def req_fresh_def fresh_check_def truthy_def
        js_get_def sample_request_def quote_def escape_char_def)
  from t ax(1) e1 e2 show ?thesis by simp
qed

end
